theory Spec2Isabelle
  imports Main
begin

section \<open>Data model (src/types/note.ts)\<close>

text \<open>
  A \<open>TextSpan\<close> is an object with a mandatory \<open>text\<close> and three optional flags;
  an absent flag is \<open>None\<close>.
\<close>

record text_span =
  span_text :: string
  bold :: "bool option"
  italic :: "bool option"
  underline :: "bool option"

record checklist_item =
  item_id :: string
  checked :: bool
  item_content :: "text_span list"

text \<open>The heading level is the literal union \<open>1 | 2 | 3\<close>.\<close>

datatype level = L1 | L2 | L3

text \<open>
  Entries of the \<open>items\<close> array of a list block as they exist at run time.
  Assigning past the end of an array (\<open>UPDATE_LIST_ITEM\<close>) leaves holes, a spread
  copy \<open>[...items]\<close> turns a hole into the value \<open>undefined\<close>, and the two differ:
  \<open>map\<close> and \<open>filter\<close> skip holes but visit \<open>undefined\<close>. \<open>LCheck\<close> is a
  checklist item that an \<open>UPDATE_BLOCK\<close> patch of the checklist variant has put
  into a list block (the reducer casts the merged object back to \<open>Block\<close>).
\<close>

datatype litem = Hole | Undefined | LSpans "text_span list" | LCheck checklist_item

text \<open>
  Entries of the \<open>items\<close> array of a checklist block: checklist items, or span
  sequences put there by an \<open>UPDATE_BLOCK\<close> patch of the list variant.
\<close>

datatype citem = CCheck checklist_item | CSpans "text_span list"

datatype block_type = T_paragraph | T_heading | T_list | T_checklist

text \<open>
  A list block carries its \<open>items\<close> array as the entries at the array indices and,
  after them, the properties that an assignment \<open>items[i] = v\<close> with an integer \<open>i\<close>
  that is not an array index has left on the array object.
\<close>

datatype block =
  Paragraph string "text_span list"
| Heading string level "text_span list"
| ListBlock string bool "litem list" "(int \<times> litem) list"
| ChecklistBlock string "citem list"

fun block_id :: "block \<Rightarrow> string" where
  "block_id (Paragraph i c) = i"
| "block_id (Heading i l c) = i"
| "block_id (ListBlock i ord its ps) = i"
| "block_id (ChecklistBlock i its) = i"

fun type_of :: "block \<Rightarrow> block_type" where
  "type_of (Paragraph i c) = T_paragraph"
| "type_of (Heading i l c) = T_heading"
| "type_of (ListBlock i ord its ps) = T_list"
| "type_of (ChecklistBlock i its) = T_checklist"

record Note =
  note_id :: string
  title :: string
  body :: string
  blocks :: "block list"
  createdAt :: int
  updatedAt :: int

section \<open>Span/text conversion (utils/span-text.ts)\<close>

definition spansToText :: "text_span list \<Rightarrow> string" where
  "spansToText spans = concat (map span_text spans)"

definition textToSpans :: "string \<Rightarrow> text_span list" where
  "textToSpans t = [\<lparr>span_text = t, bold = None, italic = None, underline = None\<rparr>]"

section \<open>Factories (utils/block-factories.ts)\<close>

definition plainSpan :: "string \<Rightarrow> text_span" where
  "plainSpan t = \<lparr>span_text = t, bold = None, italic = None, underline = None\<rparr>"

definition emptyContent :: "text_span list" where
  "emptyContent = [plainSpan '''']"

section \<open>Legacy blocks to HTML (utils/blocks-to-html.ts)\<close>

text \<open>
  \<open>String.prototype.replace\<close> with a global single-character pattern: every
  occurrence of the character is replaced, left to right.
\<close>

fun replaceAll :: "char \<Rightarrow> string \<Rightarrow> string \<Rightarrow> string" where
  "replaceAll c r [] = []"
| "replaceAll c r (x # xs) = (if x = c then r @ replaceAll c r xs else x # replaceAll c r xs)"

definition esc :: "string \<Rightarrow> string" where
  "esc t =
     replaceAll (CHR 0x22) ''&quot;''
       (replaceAll (CHR ''>'') ''&gt;''
         (replaceAll (CHR ''<'') ''&lt;''
           (replaceAll (CHR ''&'') ''&amp;'' t)))"

text \<open>A flag test \<open>if (s.bold)\<close> is true only for a present flag that is \<open>true\<close>.\<close>

definition truthy :: "bool option \<Rightarrow> bool" where
  "truthy f = (f = Some True)"

definition spanToHtml :: "text_span \<Rightarrow> string" where
  "spanToHtml s =
     (let html = esc (span_text s) in
      if html = [] then []
      else
        let html = (if truthy (bold s) then ''<strong>'' @ html @ ''</strong>'' else html);
            html = (if truthy (italic s) then ''<em>'' @ html @ ''</em>'' else html);
            html = (if truthy (underline s) then ''<u>'' @ html @ ''</u>'' else html)
        in html)"

definition spansToHtml :: "text_span list \<Rightarrow> string" where
  "spansToHtml spans = concat (map spanToHtml spans)"

text \<open>
  Reading a property of \<open>undefined\<close>, or calling \<open>map\<close> on a value that is not an
  array, raises a \<open>TypeError\<close>.
\<close>

datatype exn = TypeError

fun levelString :: "level \<Rightarrow> string" where
  "levelString L1 = ''1''"
| "levelString L2 = ''2''"
| "levelString L3 = ''3''"

text \<open>
  One list entry rendered by the callback of \<open>block.items.map\<close>. A hole is skipped by
  \<open>map\<close> and printed as the empty string by \<open>join\<close>; \<open>spansToHtml\<close> applied to
  \<open>undefined\<close> or to a checklist item object raises.
\<close>

fun listItemHtml :: "litem \<Rightarrow> exn + string" where
  "listItemHtml Hole = Inr []"
| "listItemHtml Undefined = Inl TypeError"
| "listItemHtml (LSpans spans) = Inr (''<li><p>'' @ spansToHtml spans @ ''</p></li>'')"
| "listItemHtml (LCheck it) = Inl TypeError"

fun checklistItemHtml :: "citem \<Rightarrow> exn + string" where
  "checklistItemHtml (CCheck it) =
     Inr (''<li data-type='' @ [CHR 0x22] @ ''taskItem'' @ [CHR 0x22]
          @ '' data-checked='' @ [CHR 0x22]
          @ (if checked it then ''true'' else ''false'') @ [CHR 0x22]
          @ ''><label><input type='' @ [CHR 0x22] @ ''checkbox'' @ [CHR 0x22]
          @ (if checked it then '' checked='' @ [CHR 0x22] @ ''checked'' @ [CHR 0x22] else [])
          @ ''><span></span></label><div><p>'' @ spansToHtml (item_content it)
          @ ''</p></div></li>'')"
| "checklistItemHtml (CSpans spans) = Inl TypeError"

text \<open>\<open>xs.map(f).join('')\<close> for a callback that may raise: the first raise wins.\<close>

fun mapJoin :: "('a \<Rightarrow> exn + string) \<Rightarrow> 'a list \<Rightarrow> exn + string" where
  "mapJoin f [] = Inr []"
| "mapJoin f (x # xs) =
     (case f x of
        Inl e \<Rightarrow> Inl e
      | Inr h \<Rightarrow> (case mapJoin f xs of Inl e \<Rightarrow> Inl e | Inr hs \<Rightarrow> Inr (h @ hs)))"

fun blockToHtml :: "block \<Rightarrow> exn + string" where
  "blockToHtml (Paragraph i c) = Inr (''<p>'' @ spansToHtml c @ ''</p>'')"
| "blockToHtml (Heading i l c) =
     Inr (''<h'' @ levelString l @ ''>'' @ spansToHtml c @ ''</h'' @ levelString l @ ''>'')"
| "blockToHtml (ListBlock i ord its ps) =
     (let tag = (if ord then ''ol'' else ''ul'') in
      case mapJoin listItemHtml its of
        Inl e \<Rightarrow> Inl e
      | Inr items \<Rightarrow> Inr (''<'' @ tag @ ''>'' @ items @ ''</'' @ tag @ ''>''))"
| "blockToHtml (ChecklistBlock i its) =
     (case mapJoin checklistItemHtml its of
        Inl e \<Rightarrow> Inl e
      | Inr items \<Rightarrow>
          Inr (''<ul data-type='' @ [CHR 0x22] @ ''taskList'' @ [CHR 0x22] @ ''>''
               @ items @ ''</ul>''))"

definition blocksToHtml :: "block list \<Rightarrow> exn + string" where
  "blocksToHtml bs =
     (if bs = [] then Inr ''<p></p>''
      else case mapJoin blockToHtml bs of
             Inl e \<Rightarrow> Inl e
           | Inr html \<Rightarrow> Inr (if html = [] then ''<p></p>'' else html))"

section \<open>The environment: clock and id generator\<close>

text \<open>
  \<open>Date.now()\<close>, \<open>crypto.randomUUID()\<close> and \<open>Math.random()\<close> read the environment.
  The world holds, for each of them, the sequence of values it will return and how
  many have been consumed, so that every call of the source is one step of the model:
  \<open>clock\<close> for \<open>Date.now()\<close>, \<open>idgen\<close> for \<open>crypto.randomUUID()\<close>, and \<open>random36\<close>
  for \<open>Math.random().toString(36).slice(2, 10)\<close>. \<open>has_randomUUID\<close> says whether
  \<open>crypto.randomUUID\<close> exists in this environment.
\<close>

record world =
  clock :: "nat \<Rightarrow> int"
  clock_reads :: nat
  has_randomUUID :: bool
  idgen :: "nat \<Rightarrow> string"
  ids_made :: nat
  random36 :: "nat \<Rightarrow> string"
  random_reads :: nat

definition now :: "world \<Rightarrow> int \<times> world" where
  "now w = (clock w (clock_reads w), w\<lparr>clock_reads := Suc (clock_reads w)\<rparr>)"

text \<open>\<open>Number.prototype.toString(36)\<close> of an integer: digits \<open>0-9a-z\<close>, a sign if negative.\<close>

definition digit36 :: "nat \<Rightarrow> char" where
  "digit36 d = ''0123456789abcdefghijklmnopqrstuvwxyz'' ! d"

function toString36_nat :: "nat \<Rightarrow> string" where
  "toString36_nat n =
     (if n < 36 then [digit36 n] else toString36_nat (n div 36) @ [digit36 (n mod 36)])"
  by pat_completeness auto
termination
  by (relation "measure (\<lambda>n. n)") auto

definition toString36 :: "int \<Rightarrow> string" where
  "toString36 t = (if t < 0 then ''-'' @ toString36_nat (nat (- t)) else toString36_nat (nat t))"

text \<open>
  \<open>generateId\<close> (utils/id.ts): \<open>crypto.randomUUID()\<close> when it exists, otherwise the
  clock in base 36, a dash and eight base-36 digits of a random number.
\<close>

definition generateId :: "world \<Rightarrow> string \<times> world" where
  "generateId w =
     (if has_randomUUID w then (idgen w (ids_made w), w\<lparr>ids_made := Suc (ids_made w)\<rparr>)
      else
        let (t, w1) = now w
        in (toString36 t @ ''-'' @ random36 w1 (random_reads w1),
            w1\<lparr>random_reads := Suc (random_reads w1)\<rparr>))"

text \<open>The optional \<open>content\<close> parameter defaults to \<open>emptyContent()\<close>.\<close>

definition createParagraphBlock :: "text_span list option \<Rightarrow> world \<Rightarrow> block \<times> world" where
  "createParagraphBlock content w =
     (let c = (case content of None \<Rightarrow> emptyContent | Some c \<Rightarrow> c);
          (i, w1) = generateId w
      in (Paragraph i c, w1))"

definition createChecklistItem :: "world \<Rightarrow> checklist_item \<times> world" where
  "createChecklistItem w =
     (let (i, w1) = generateId w
      in (\<lparr>item_id = i, checked = False, item_content = emptyContent\<rparr>, w1))"

text \<open>\<open>createNote()\<close> with both parameters defaulted, as the reducer calls it.\<close>

definition createNote :: "world \<Rightarrow> Note \<times> world" where
  "createNote w =
     (let (t, w1) = now w;
          (i, w2) = generateId w1;
          (b, w3) = createParagraphBlock None w2
      in (\<lparr>note_id = i, title = '''', body = ''<p></p>'', blocks = [b],
           createdAt = t, updatedAt = t\<rparr>, w3))"

section \<open>Array operations of the reducer\<close>

text \<open>\<open>Array.prototype.map\<close> with a callback that reads the environment, left to right.\<close>

fun mapEff :: "('a \<Rightarrow> world \<Rightarrow> 'b \<times> world) \<Rightarrow> 'a list \<Rightarrow> world \<Rightarrow> 'b list \<times> world" where
  "mapEff f [] w = ([], w)"
| "mapEff f (x # xs) w =
     (let (y, w1) = f x w; (ys, w2) = mapEff f xs w1 in (y # ys, w2))"

text \<open>A callback that reads nothing from the environment.\<close>

definition pure :: "('a \<Rightarrow> 'b) \<Rightarrow> 'a \<Rightarrow> world \<Rightarrow> 'b \<times> world" where
  "pure f x w = (f x, w)"

text \<open>\<open>findIndex\<close>: the first index whose element satisfies \<open>p\<close>, or \<open>-1\<close>.\<close>

fun findIndex :: "('a \<Rightarrow> bool) \<Rightarrow> 'a list \<Rightarrow> int" where
  "findIndex p [] = - 1"
| "findIndex p (x # xs) =
     (if p x then 0 else (let i = findIndex p xs in if i < 0 then - 1 else i + 1))"

text \<open>
  \<open>xs.splice(start, 0, x)\<close>: a negative \<open>start\<close> counts from the end (not below 0),
  a \<open>start\<close> beyond the length is the length.
\<close>

definition spliceInsert :: "int \<Rightarrow> 'a \<Rightarrow> 'a list \<Rightarrow> 'a list" where
  "spliceInsert start x xs =
     (let len = int (length xs);
          k = (if start < 0 then max (len + start) 0 else min start len)
      in take (nat k) xs @ [x] @ drop (nat k) xs)"

text \<open>
  The spread copy \<open>[...items]\<close> reads every index, so a hole becomes \<open>undefined\<close>; the
  copy is a new array with these entries and no other property.
\<close>

definition spread :: "litem list \<Rightarrow> litem list" where
  "spread xs = map (\<lambda>e. if e = Hole then Undefined else e) xs"

text \<open>
  An integer is an array index when it lies between \<open>0\<close> and \<open>2^32 - 2\<close>. Only an
  assignment at an array index touches the entries and the length of an array.
\<close>

definition isArrayIndex :: "int \<Rightarrow> bool" where
  "isArrayIndex i = (0 \<le> i \<and> i < 2 ^ 32 - 1)"

text \<open>
  \<open>items[i] = v\<close> for an integer \<open>i\<close>, on an array given by its entries and its
  other properties. At an array index inside the array the entry is replaced; at an
  array index at or past the end the array grows to length \<open>i + 1\<close>, the indices in
  between staying holes. Any other integer (negative, or \<open>2^32 - 1\<close> and more) names
  an ordinary property: it is set, and the entries and the length stay as they are.
\<close>

definition assignIndex ::
  "int \<Rightarrow> litem \<Rightarrow> litem list \<times> (int \<times> litem) list \<Rightarrow> litem list \<times> (int \<times> litem) list" where
  "assignIndex i v arr =
     (let (xs, ps) = arr in
      if isArrayIndex i then
        (if nat i < length xs then (xs[nat i := v], ps)
         else (xs @ replicate (nat i - length xs) Hole @ [v], ps))
      else (xs, (i, v) # filter (\<lambda>(k, u). k \<noteq> i) ps))"

text \<open>
  The read \<open>items[k]\<close> for an integer \<open>k\<close>: the entry at an array index, a hole and
  an index past the end reading as \<open>undefined\<close>; otherwise the property of that name,
  or \<open>undefined\<close> if there is none.
\<close>

definition readIndex :: "litem list \<times> (int \<times> litem) list \<Rightarrow> int \<Rightarrow> litem" where
  "readIndex arr k =
     (let (xs, ps) = arr in
      if isArrayIndex k then
        (if nat k < length xs then (case xs ! nat k of Hole \<Rightarrow> Undefined | e \<Rightarrow> e)
         else Undefined)
      else (case map_of ps k of None \<Rightarrow> Undefined | Some v \<Rightarrow> v))"

text \<open>
  \<open>items.filter((_, i) => i !== idx)\<close>: holes are not visited and not kept; the result
  is a new array.
\<close>

definition filterIndex :: "int \<Rightarrow> litem list \<Rightarrow> litem list" where
  "filterIndex idx xs =
     map snd (filter (\<lambda>(i, x). x \<noteq> Hole \<and> int i \<noteq> idx) (enumerate 0 xs))"

text \<open>\<open>item.id\<close> of a checklist entry; an array of spans has no such property.\<close>

fun citem_id :: "citem \<Rightarrow> string option" where
  "citem_id (CCheck it) = Some (item_id it)"
| "citem_id (CSpans spans) = None"

section \<open>State and actions (state/editor-state.ts)\<close>

record EditorState =
  st_notes :: "Note list"
  activeNoteId :: "string option"

definition initialEditorState :: EditorState where
  "initialEditorState = \<lparr>st_notes = [], activeNoteId = None\<rparr>"

datatype direction = up | down

text \<open>
  The payload of \<open>UPDATE_BLOCK\<close> is a \<open>Partial<Block>\<close>: any subset of the fields of
  the four variants, an absent field being \<open>None\<close>. The \<open>items\<close> of a patch are those
  of a list block or those of a checklist block. Every field that a patch has holds a
  value: a patch that sets a field to \<open>undefined\<close> explicitly is not represented (the
  spread would copy the \<open>undefined\<close> into the block, which then is no value of a
  block type; with \<open>items: undefined\<close> every later list operation on it throws).
\<close>

datatype patch_items = PListItems "text_span list list" | PChecklistItems "checklist_item list"

record patch =
  p_id :: "string option"
  p_type :: "block_type option"
  p_content :: "text_span list option"
  p_level :: "level option"
  p_ordered :: "bool option"
  p_items :: "patch_items option"

text \<open>
  The actions, one constructor for each member of the union \<open>EditorAction\<close>, with the
  fields that follow \<open>type\<close> in their order. \<open>itemIndex\<close> and \<open>afterIndex\<close> are of
  type \<open>number\<close>; the actions here carry the integers among the numbers.
\<close>

datatype EditorAction =
  LOAD_NOTES "Note list"
| CREATE_NOTE
| DELETE_NOTE string
| SET_ACTIVE_NOTE "string option"
| UPDATE_TITLE string string
| UPDATE_BODY string string
| ADD_BLOCK string string block
| REMOVE_BLOCK string string
| UPDATE_BLOCK string string patch
| REPLACE_BLOCK string string block
| MOVE_BLOCK string string direction
| UPDATE_BLOCK_CONTENT string string "text_span list"
| UPDATE_LIST_ITEM string string int "text_span list"
| ADD_LIST_ITEM string string int
| REMOVE_LIST_ITEM string string int
| TOGGLE_CHECKLIST_ITEM string string string
| UPDATE_CHECKLIST_ITEM string string string "text_span list"
| ADD_CHECKLIST_ITEM string string string
| REMOVE_CHECKLIST_ITEM string string string

subsection \<open>Pure helpers\<close>

definition mapNote ::
  "Note list \<Rightarrow> string \<Rightarrow> (Note \<Rightarrow> world \<Rightarrow> Note \<times> world) \<Rightarrow> world \<Rightarrow> Note list \<times> world" where
  "mapNote ns noteId fn w = mapEff (\<lambda>n. if note_id n = noteId then fn n else Pair n) ns w"

definition mapBlock ::
  "block list \<Rightarrow> string \<Rightarrow> (block \<Rightarrow> world \<Rightarrow> block \<times> world) \<Rightarrow> world \<Rightarrow> block list \<times> world" where
  "mapBlock bs blockId fn w = mapEff (\<lambda>b. if block_id b = blockId then fn b else Pair b) bs w"

definition touch :: "Note \<Rightarrow> world \<Rightarrow> Note \<times> world" where
  "touch n w = (let (t, w1) = now w in (n\<lparr>updatedAt := t\<rparr>, w1))"

subsection \<open>The callbacks handed to \<open>mapBlock\<close>\<close>

text \<open>
  \<open>UPDATE_BLOCK\<close>: \<open>{ ...b, ...action.patch, id: b.id, type: b.type } as Block\<close>.
  Every field of the patch overwrites the field of the block of the same name; the
  \<open>id\<close> and \<open>type\<close> of the patch are then overwritten by those of the block, so
  they never reach the result. A patch field that the variant of the block does not
  have stays on the object as a property no reader of that variant looks at. The
  \<open>items\<close> of the other variant land in the \<open>items\<close> of the block as they are.
\<close>

fun mergePatch :: "patch \<Rightarrow> block \<Rightarrow> block" where
  "mergePatch p (Paragraph i c) =
     Paragraph i (case p_content p of None \<Rightarrow> c | Some c' \<Rightarrow> c')"
| "mergePatch p (Heading i l c) =
     Heading i (case p_level p of None \<Rightarrow> l | Some l' \<Rightarrow> l')
               (case p_content p of None \<Rightarrow> c | Some c' \<Rightarrow> c')"
| "mergePatch p (ListBlock i ord its ps) =
     (let ord1 = (case p_ordered p of None \<Rightarrow> ord | Some ord' \<Rightarrow> ord') in
      case p_items p of
        None \<Rightarrow> ListBlock i ord1 its ps
      | Some (PListItems xs) \<Rightarrow> ListBlock i ord1 (map LSpans xs) []
      | Some (PChecklistItems xs) \<Rightarrow> ListBlock i ord1 (map LCheck xs) [])"
| "mergePatch p (ChecklistBlock i its) =
     ChecklistBlock i
       (case p_items p of
          None \<Rightarrow> its
        | Some (PListItems xs) \<Rightarrow> map CSpans xs
        | Some (PChecklistItems xs) \<Rightarrow> map CCheck xs)"

fun updateBlockContent :: "text_span list \<Rightarrow> block \<Rightarrow> block" where
  "updateBlockContent content (Paragraph i c) = Paragraph i content"
| "updateBlockContent content (Heading i l c) = Heading i l content"
| "updateBlockContent content b = b"

fun updateListItem :: "int \<Rightarrow> text_span list \<Rightarrow> block \<Rightarrow> block" where
  "updateListItem itemIndex content (ListBlock i ord its ps) =
     (let (items, props) = assignIndex itemIndex (LSpans content) (spread its, [])
      in ListBlock i ord items props)"
| "updateListItem itemIndex content b = b"

fun addListItem :: "int \<Rightarrow> block \<Rightarrow> block" where
  "addListItem afterIndex (ListBlock i ord its ps) =
     ListBlock i ord
       (spliceInsert (afterIndex + 1)
          (LSpans [\<lparr>span_text = [], bold = None, italic = None, underline = None\<rparr>])
          (spread its))
       []"
| "addListItem afterIndex b = b"

fun removeListItem :: "int \<Rightarrow> block \<Rightarrow> block" where
  "removeListItem itemIndex (ListBlock i ord its ps) =
     (let items = filterIndex itemIndex its in
      ListBlock i ord
        (if items \<noteq> [] then items
         else [LSpans [\<lparr>span_text = [], bold = None, italic = None, underline = None\<rparr>]])
        [])"
| "removeListItem itemIndex b = b"

fun toggleItem :: "string \<Rightarrow> citem \<Rightarrow> citem" where
  "toggleItem itemId (CCheck it) =
     (if item_id it = itemId then CCheck (it\<lparr>checked := \<not> checked it\<rparr>) else CCheck it)"
| "toggleItem itemId (CSpans spans) = CSpans spans"

fun toggleChecklistItem :: "string \<Rightarrow> block \<Rightarrow> block" where
  "toggleChecklistItem itemId (ChecklistBlock i its) =
     ChecklistBlock i (map (toggleItem itemId) its)"
| "toggleChecklistItem itemId b = b"

fun updateItem :: "string \<Rightarrow> text_span list \<Rightarrow> citem \<Rightarrow> citem" where
  "updateItem itemId content (CCheck it) =
     (if item_id it = itemId then CCheck (it\<lparr>item_content := content\<rparr>) else CCheck it)"
| "updateItem itemId content (CSpans spans) = CSpans spans"

fun updateChecklistItem :: "string \<Rightarrow> text_span list \<Rightarrow> block \<Rightarrow> block" where
  "updateChecklistItem itemId content (ChecklistBlock i its) =
     ChecklistBlock i (map (updateItem itemId content) its)"
| "updateChecklistItem itemId content b = b"

fun addChecklistItem :: "string \<Rightarrow> block \<Rightarrow> world \<Rightarrow> block \<times> world" where
  "addChecklistItem afterItemId (ChecklistBlock i its) w =
     (let idx = findIndex (\<lambda>x. citem_id x = Some afterItemId) its;
          insertAt = (if idx \<ge> 0 then idx + 1 else int (length its));
          (new, w1) = createChecklistItem w
      in (ChecklistBlock i (spliceInsert insertAt (CCheck new) its), w1))"
| "addChecklistItem afterItemId b w = (b, w)"

fun removeChecklistItem :: "string \<Rightarrow> block \<Rightarrow> world \<Rightarrow> block \<times> world" where
  "removeChecklistItem itemId (ChecklistBlock i its) w =
     (let items = filter (\<lambda>x. citem_id x \<noteq> Some itemId) its in
      if items \<noteq> [] then (ChecklistBlock i items, w)
      else (let (new, w1) = createChecklistItem w in (ChecklistBlock i [CCheck new], w1)))"
| "removeChecklistItem itemId b w = (b, w)"

subsection \<open>The callbacks handed to \<open>mapNote\<close>\<close>

text \<open>
  The callback shared by the block-level cases:
  \<open>(n) => touch({ ...n, blocks: mapBlock(n.blocks, action.blockId, fn) })\<close>.
  The blocks are computed before \<open>touch\<close> reads the clock.
\<close>

definition touchBlocks ::
  "string \<Rightarrow> (block \<Rightarrow> world \<Rightarrow> block \<times> world) \<Rightarrow> Note \<Rightarrow> world \<Rightarrow> Note \<times> world" where
  "touchBlocks blockId fn n w =
     (let (bs, w1) = mapBlock (blocks n) blockId fn w in touch (n\<lparr>blocks := bs\<rparr>) w1)"

definition addBlock :: "string \<Rightarrow> block \<Rightarrow> Note \<Rightarrow> world \<Rightarrow> Note \<times> world" where
  "addBlock afterBlockId b n w =
     (let idx = findIndex (\<lambda>x. block_id x = afterBlockId) (blocks n);
          insertAt = (if idx \<ge> 0 then idx + 1 else int (length (blocks n)))
      in touch (n\<lparr>blocks := spliceInsert insertAt b (blocks n)\<rparr>) w)"

definition removeBlock :: "string \<Rightarrow> Note \<Rightarrow> world \<Rightarrow> Note \<times> world" where
  "removeBlock blockId n w =
     (let bs = filter (\<lambda>b. block_id b \<noteq> blockId) (blocks n) in
      if bs \<noteq> [] then touch (n\<lparr>blocks := bs\<rparr>) w
      else (let (p, w1) = createParagraphBlock None w in touch (n\<lparr>blocks := [p]\<rparr>) w1))"

definition moveBlock :: "string \<Rightarrow> direction \<Rightarrow> Note \<Rightarrow> world \<Rightarrow> Note \<times> world" where
  "moveBlock blockId dir n w =
     (let bs = blocks n;
          idx = findIndex (\<lambda>b. block_id b = blockId) bs
      in if idx < 0 then (n, w)
         else
           let targetIdx = (if dir = up then idx - 1 else idx + 1)
           in if targetIdx < 0 \<or> targetIdx \<ge> int (length bs) then (n, w)
              else touch (n\<lparr>blocks :=
                     bs[nat idx := bs ! nat targetIdx, nat targetIdx := bs ! nat idx]\<rparr>) w)"

subsection \<open>The reducer\<close>

text \<open>
  The action type is a closed union, so the \<open>default\<close> branch of the \<open>switch\<close> is
  not reachable from a typed caller and has no equation here.
\<close>

fun editorReducer :: "EditorState \<Rightarrow> EditorAction \<Rightarrow> world \<Rightarrow> EditorState \<times> world" where
  "editorReducer s (LOAD_NOTES ns) w = (s\<lparr>st_notes := ns\<rparr>, w)"
| "editorReducer s CREATE_NOTE w =
     (let (n, w1) = createNote w
      in (s\<lparr>st_notes := n # st_notes s, activeNoteId := Some (note_id n)\<rparr>, w1))"
| "editorReducer s (DELETE_NOTE noteId) w =
     (let remaining = filter (\<lambda>n. note_id n \<noteq> noteId) (st_notes s)
      in (s\<lparr>st_notes := remaining,
            activeNoteId :=
              (if activeNoteId s = Some noteId
               then (case remaining of [] \<Rightarrow> None | n # rest \<Rightarrow> Some (note_id n))
               else activeNoteId s)\<rparr>, w))"
| "editorReducer s (SET_ACTIVE_NOTE noteId) w = (s\<lparr>activeNoteId := noteId\<rparr>, w)"
| "editorReducer s (UPDATE_TITLE noteId t) w =
     (let (ns, w1) = mapNote (st_notes s) noteId (\<lambda>n. touch (n\<lparr>title := t\<rparr>)) w
      in (s\<lparr>st_notes := ns\<rparr>, w1))"
| "editorReducer s (UPDATE_BODY noteId b) w =
     (let (ns, w1) = mapNote (st_notes s) noteId (\<lambda>n. touch (n\<lparr>body := b\<rparr>)) w
      in (s\<lparr>st_notes := ns\<rparr>, w1))"
| "editorReducer s (ADD_BLOCK noteId afterBlockId b) w =
     (let (ns, w1) = mapNote (st_notes s) noteId (addBlock afterBlockId b) w
      in (s\<lparr>st_notes := ns\<rparr>, w1))"
| "editorReducer s (REMOVE_BLOCK noteId blockId) w =
     (let (ns, w1) = mapNote (st_notes s) noteId (removeBlock blockId) w
      in (s\<lparr>st_notes := ns\<rparr>, w1))"
| "editorReducer s (UPDATE_BLOCK noteId blockId p) w =
     (let (ns, w1) = mapNote (st_notes s) noteId (touchBlocks blockId (pure (mergePatch p))) w
      in (s\<lparr>st_notes := ns\<rparr>, w1))"
| "editorReducer s (REPLACE_BLOCK noteId blockId b) w =
     (let (ns, w1) = mapNote (st_notes s) noteId (touchBlocks blockId (pure (\<lambda>old. b))) w
      in (s\<lparr>st_notes := ns\<rparr>, w1))"
| "editorReducer s (MOVE_BLOCK noteId blockId dir) w =
     (let (ns, w1) = mapNote (st_notes s) noteId (moveBlock blockId dir) w
      in (s\<lparr>st_notes := ns\<rparr>, w1))"
| "editorReducer s (UPDATE_BLOCK_CONTENT noteId blockId content) w =
     (let (ns, w1) = mapNote (st_notes s) noteId
                       (touchBlocks blockId (pure (updateBlockContent content))) w
      in (s\<lparr>st_notes := ns\<rparr>, w1))"
| "editorReducer s (UPDATE_LIST_ITEM noteId blockId itemIndex content) w =
     (let (ns, w1) = mapNote (st_notes s) noteId
                       (touchBlocks blockId (pure (updateListItem itemIndex content))) w
      in (s\<lparr>st_notes := ns\<rparr>, w1))"
| "editorReducer s (ADD_LIST_ITEM noteId blockId afterIndex) w =
     (let (ns, w1) = mapNote (st_notes s) noteId
                       (touchBlocks blockId (pure (addListItem afterIndex))) w
      in (s\<lparr>st_notes := ns\<rparr>, w1))"
| "editorReducer s (REMOVE_LIST_ITEM noteId blockId itemIndex) w =
     (let (ns, w1) = mapNote (st_notes s) noteId
                       (touchBlocks blockId (pure (removeListItem itemIndex))) w
      in (s\<lparr>st_notes := ns\<rparr>, w1))"
| "editorReducer s (TOGGLE_CHECKLIST_ITEM noteId blockId itemId) w =
     (let (ns, w1) = mapNote (st_notes s) noteId
                       (touchBlocks blockId (pure (toggleChecklistItem itemId))) w
      in (s\<lparr>st_notes := ns\<rparr>, w1))"
| "editorReducer s (UPDATE_CHECKLIST_ITEM noteId blockId itemId content) w =
     (let (ns, w1) = mapNote (st_notes s) noteId
                       (touchBlocks blockId (pure (updateChecklistItem itemId content))) w
      in (s\<lparr>st_notes := ns\<rparr>, w1))"
| "editorReducer s (ADD_CHECKLIST_ITEM noteId blockId afterItemId) w =
     (let (ns, w1) = mapNote (st_notes s) noteId
                       (touchBlocks blockId (addChecklistItem afterItemId)) w
      in (s\<lparr>st_notes := ns\<rparr>, w1))"
| "editorReducer s (REMOVE_CHECKLIST_ITEM noteId blockId itemId) w =
     (let (ns, w1) = mapNote (st_notes s) noteId
                       (touchBlocks blockId (removeChecklistItem itemId)) w
      in (s\<lparr>st_notes := ns\<rparr>, w1))"

text \<open>A sequence of dispatches: each action sees the state and world the previous one left.\<close>

fun dispatchAll :: "EditorAction list \<Rightarrow> EditorState \<Rightarrow> world \<Rightarrow> EditorState \<times> world" where
  "dispatchAll [] s w = (s, w)"
| "dispatchAll (a # as) s w = (let (s1, w1) = editorReducer s a w in dispatchAll as s1 w1)"

section \<open>List keyboard behaviour (components/editor/tiptap/listKeymap.ts)\<close>

text \<open>
  The handlers read the editing engine's document only through the resolved cursor
  position \<open>$from\<close>: the nodes \<open>$from.node(d)\<close> for \<open>0 \<le> d \<le> $from.depth\<close> and,
  of each node, its type name, \<open>isTextblock\<close>, \<open>textContent\<close> and \<open>childCount\<close>.
  A position is the document node (depth 0) and the chain of nodes below it down to
  the cursor's parent.
\<close>

record pm_node =
  type_name :: string
  isTextblock :: bool
  textContent :: string
  childCount :: nat

record resolved_pos =
  doc :: pm_node
  ancestors :: "pm_node list"

definition depth :: "resolved_pos \<Rightarrow> nat" where
  "depth pos = length (ancestors pos)"

definition node :: "resolved_pos \<Rightarrow> nat \<Rightarrow> pm_node" where
  "node pos d = (if d = 0 then doc pos else ancestors pos ! (d - 1))"

definition parent :: "resolved_pos \<Rightarrow> pm_node" where
  "parent pos = node pos (depth pos)"

text \<open>The loop \<open>for (let d = $from.depth; d > 0; d--)\<close>, entered at \<open>d\<close>.\<close>

fun listItemTypeName_loop :: "resolved_pos \<Rightarrow> nat \<Rightarrow> string option" where
  "listItemTypeName_loop pos 0 = None"
| "listItemTypeName_loop pos (Suc d) =
     (let name = type_name (node pos (Suc d)) in
      if name = ''listItem'' \<or> name = ''taskItem'' then Some name
      else listItemTypeName_loop pos d)"

definition listItemTypeName :: "resolved_pos \<Rightarrow> string option" where
  "listItemTypeName pos = listItemTypeName_loop pos (depth pos)"

text \<open>The loop \<open>for (let d = $from.depth - 1; d >= 1; d--)\<close>, entered at \<open>d\<close>.\<close>

fun isAtEmptyListItem_loop :: "resolved_pos \<Rightarrow> nat \<Rightarrow> bool" where
  "isAtEmptyListItem_loop pos 0 = False"
| "isAtEmptyListItem_loop pos (Suc d) =
     (let n = node pos (Suc d) in
      if type_name n = ''listItem'' \<or> type_name n = ''taskItem'' then childCount n = 1
      else isAtEmptyListItem_loop pos d)"

definition isAtEmptyListItem :: "resolved_pos \<Rightarrow> bool" where
  "isAtEmptyListItem pos =
     (if \<not> isTextblock (parent pos) then False
      else if length (textContent (parent pos)) \<noteq> 0 then False
      else isAtEmptyListItem_loop pos (depth pos - 1))"

text \<open>
  A handler returns \<open>false\<close> (\<open>None\<close>: the key is left to the next handler) or the
  result of one command of the editing engine, named here with its argument.
\<close>

datatype command = liftListItem string | splitListItem string | sinkListItem string

definition CustomListItem_Enter :: "resolved_pos \<Rightarrow> command option" where
  "CustomListItem_Enter pos =
     (if listItemTypeName pos \<noteq> Some ''listItem'' then None
      else if isAtEmptyListItem pos then Some (liftListItem ''listItem'')
      else Some (splitListItem ''listItem''))"

definition CustomTaskItem_Enter :: "resolved_pos \<Rightarrow> command option" where
  "CustomTaskItem_Enter pos =
     (if listItemTypeName pos \<noteq> Some ''taskItem'' then None
      else if isAtEmptyListItem pos then Some (liftListItem ''taskItem'')
      else Some (splitListItem ''taskItem''))"

section \<open>Well-formedness\<close>

text \<open>
  The structural invariant of the legacy model: a note has at least one block, and
  the \<open>items\<close> of a list or checklist block has length at least one.
\<close>

fun wf_block :: "block \<Rightarrow> bool" where
  "wf_block (Paragraph i c) = True"
| "wf_block (Heading i l c) = True"
| "wf_block (ListBlock i ord its ps) = (length its \<ge> 1)"
| "wf_block (ChecklistBlock i its) = (length its \<ge> 1)"

definition wf_note :: "Note \<Rightarrow> bool" where
  "wf_note n = (length (blocks n) \<ge> 1 \<and> list_all wf_block (blocks n))"

definition wf_state :: "EditorState \<Rightarrow> bool" where
  "wf_state s = list_all wf_note (st_notes s)"

text \<open>The restriction under which the invariant is claimed: the notes of a load are well formed.\<close>

fun loads_wf :: "EditorAction \<Rightarrow> bool" where
  "loads_wf (LOAD_NOTES ns) = list_all wf_note ns"
| "loads_wf a = True"

fun wf_patch_items :: "patch_items option \<Rightarrow> bool" where
  "wf_patch_items None = True"
| "wf_patch_items (Some (PListItems xs)) = (length xs \<ge> 1)"
| "wf_patch_items (Some (PChecklistItems xs)) = (length xs \<ge> 1)"

text \<open>
  Every note, block and \<open>items\<close> array that the action carries is well formed; a patch
  either has no \<open>items\<close> or has at least one item there.
\<close>

fun wf_action :: "EditorAction \<Rightarrow> bool" where
  "wf_action (LOAD_NOTES ns) = list_all wf_note ns"
| "wf_action (ADD_BLOCK noteId afterBlockId b) = wf_block b"
| "wf_action (REPLACE_BLOCK noteId blockId b) = wf_block b"
| "wf_action (UPDATE_BLOCK noteId blockId p) = wf_patch_items (p_items p)"
| "wf_action a = True"

section \<open>Notions used in the statements\<close>

text \<open>
  \<open>world_le w w'\<close>: \<open>w'\<close> is \<open>w\<close> after some more reads of the clock, of the id
  generator and of the random numbers.
\<close>

definition world_le :: "world \<Rightarrow> world \<Rightarrow> bool" where
  "world_le w w' =
     (clock w' = clock w \<and> idgen w' = idgen w \<and> random36 w' = random36 w
      \<and> has_randomUUID w' = has_randomUUID w
      \<and> clock_reads w \<le> clock_reads w' \<and> ids_made w \<le> ids_made w'
      \<and> random_reads w \<le> random_reads w')"

text \<open>The id and the type discriminant of every block of a note, in order.\<close>

definition tags :: "Note \<Rightarrow> (string \<times> block_type) list" where
  "tags n = map (\<lambda>b. (block_id b, type_of b)) (blocks n)"

text \<open>
  The note id and the callback that the reducer hands to \<open>mapNote\<close>, for the
  actions that go through \<open>mapNote\<close>.
\<close>

fun noteCallback :: "EditorAction \<Rightarrow> (string \<times> (Note \<Rightarrow> world \<Rightarrow> Note \<times> world)) option" where
  "noteCallback (UPDATE_TITLE noteId t) = Some (noteId, \<lambda>n. touch (n\<lparr>title := t\<rparr>))"
| "noteCallback (UPDATE_BODY noteId b) = Some (noteId, \<lambda>n. touch (n\<lparr>body := b\<rparr>))"
| "noteCallback (ADD_BLOCK noteId afterBlockId b) = Some (noteId, addBlock afterBlockId b)"
| "noteCallback (REMOVE_BLOCK noteId blockId) = Some (noteId, removeBlock blockId)"
| "noteCallback (UPDATE_BLOCK noteId blockId p) =
     Some (noteId, touchBlocks blockId (pure (mergePatch p)))"
| "noteCallback (REPLACE_BLOCK noteId blockId b) =
     Some (noteId, touchBlocks blockId (pure (\<lambda>old. b)))"
| "noteCallback (MOVE_BLOCK noteId blockId dir) = Some (noteId, moveBlock blockId dir)"
| "noteCallback (UPDATE_BLOCK_CONTENT noteId blockId content) =
     Some (noteId, touchBlocks blockId (pure (updateBlockContent content)))"
| "noteCallback (UPDATE_LIST_ITEM noteId blockId itemIndex content) =
     Some (noteId, touchBlocks blockId (pure (updateListItem itemIndex content)))"
| "noteCallback (ADD_LIST_ITEM noteId blockId afterIndex) =
     Some (noteId, touchBlocks blockId (pure (addListItem afterIndex)))"
| "noteCallback (REMOVE_LIST_ITEM noteId blockId itemIndex) =
     Some (noteId, touchBlocks blockId (pure (removeListItem itemIndex)))"
| "noteCallback (TOGGLE_CHECKLIST_ITEM noteId blockId itemId) =
     Some (noteId, touchBlocks blockId (pure (toggleChecklistItem itemId)))"
| "noteCallback (UPDATE_CHECKLIST_ITEM noteId blockId itemId content) =
     Some (noteId, touchBlocks blockId (pure (updateChecklistItem itemId content)))"
| "noteCallback (ADD_CHECKLIST_ITEM noteId blockId afterItemId) =
     Some (noteId, touchBlocks blockId (addChecklistItem afterItemId))"
| "noteCallback (REMOVE_CHECKLIST_ITEM noteId blockId itemId) =
     Some (noteId, touchBlocks blockId (removeChecklistItem itemId))"
| "noteCallback a = None"

text \<open>
  The action re-stamps the note: it is one of the actions above, addressed to the
  note's id; for \<open>MOVE_BLOCK\<close>, moreover, the block is found and has a neighbour in
  the given direction (the two early returns of that case leave the note as it is).
\<close>

fun restamps :: "EditorAction \<Rightarrow> Note \<Rightarrow> bool" where
  "restamps (MOVE_BLOCK noteId blockId dir) n =
     (note_id n = noteId \<and>
      (let idx = findIndex (\<lambda>b. block_id b = blockId) (blocks n);
           targetIdx = (if dir = up then idx - 1 else idx + 1)
       in 0 \<le> idx \<and> 0 \<le> targetIdx \<and> targetIdx < int (length (blocks n))))"
| "restamps a n = (case noteCallback a of None \<Rightarrow> False | Some (noteId, fn) \<Rightarrow> note_id n = noteId)"

text \<open>The block id a block-level action is addressed to, with its note id.\<close>

fun addressed_block :: "EditorAction \<Rightarrow> (string \<times> string) option" where
  "addressed_block (REMOVE_BLOCK noteId blockId) = Some (noteId, blockId)"
| "addressed_block (UPDATE_BLOCK noteId blockId p) = Some (noteId, blockId)"
| "addressed_block (REPLACE_BLOCK noteId blockId b) = Some (noteId, blockId)"
| "addressed_block (MOVE_BLOCK noteId blockId dir) = Some (noteId, blockId)"
| "addressed_block (UPDATE_BLOCK_CONTENT noteId blockId content) = Some (noteId, blockId)"
| "addressed_block (UPDATE_LIST_ITEM noteId blockId itemIndex content) = Some (noteId, blockId)"
| "addressed_block (ADD_LIST_ITEM noteId blockId afterIndex) = Some (noteId, blockId)"
| "addressed_block (REMOVE_LIST_ITEM noteId blockId itemIndex) = Some (noteId, blockId)"
| "addressed_block (TOGGLE_CHECKLIST_ITEM noteId blockId itemId) = Some (noteId, blockId)"
| "addressed_block (UPDATE_CHECKLIST_ITEM noteId blockId itemId content) = Some (noteId, blockId)"
| "addressed_block (ADD_CHECKLIST_ITEM noteId blockId afterItemId) = Some (noteId, blockId)"
| "addressed_block (REMOVE_CHECKLIST_ITEM noteId blockId itemId) = Some (noteId, blockId)"
| "addressed_block a = None"

text \<open>The checklist item id an action is addressed to, with its note and block ids.\<close>

fun addressed_item :: "EditorAction \<Rightarrow> (string \<times> string \<times> string) option" where
  "addressed_item (TOGGLE_CHECKLIST_ITEM noteId blockId itemId) = Some (noteId, blockId, itemId)"
| "addressed_item (UPDATE_CHECKLIST_ITEM noteId blockId itemId content) = Some (noteId, blockId, itemId)"
| "addressed_item (REMOVE_CHECKLIST_ITEM noteId blockId itemId) = Some (noteId, blockId, itemId)"
| "addressed_item a = None"

text \<open>
  The action is addressed to a note id that no note of the state has. Deleting an
  absent id is included as long as the active pointer is not that id.
\<close>

fun note_missing :: "EditorState \<Rightarrow> EditorAction \<Rightarrow> bool" where
  "note_missing s (DELETE_NOTE noteId) =
     (noteId \<notin> set (map note_id (st_notes s)) \<and> activeNoteId s \<noteq> Some noteId)"
| "note_missing s a =
     (case noteCallback a of
        None \<Rightarrow> False
      | Some (noteId, fn) \<Rightarrow> noteId \<notin> set (map note_id (st_notes s)))"

text \<open>The action is addressed to a block id that no block of the addressed notes has.\<close>

definition block_missing :: "EditorState \<Rightarrow> EditorAction \<Rightarrow> bool" where
  "block_missing s a =
     (case addressed_block a of
        None \<Rightarrow> False
      | Some (noteId, blockId) \<Rightarrow>
          list_all (\<lambda>n. note_id n = noteId \<longrightarrow> blockId \<notin> set (map block_id (blocks n)))
            (st_notes s))"

fun item_ids :: "block \<Rightarrow> string list" where
  "item_ids (ChecklistBlock i its) = List.map_filter citem_id its"
| "item_ids b = []"

text \<open>The action is addressed to an item id that no item of the addressed blocks has.\<close>

definition item_missing :: "EditorState \<Rightarrow> EditorAction \<Rightarrow> bool" where
  "item_missing s a =
     (case addressed_item a of
        None \<Rightarrow> False
      | Some (noteId, blockId, itemId) \<Rightarrow>
          list_all (\<lambda>n. note_id n = noteId \<longrightarrow>
              list_all (\<lambda>b. block_id b = blockId \<longrightarrow> itemId \<notin> set (item_ids b)) (blocks n))
            (st_notes s))"

text \<open>
  What \<open>REMOVE_BLOCK\<close> and \<open>REMOVE_CHECKLIST_ITEM\<close> filter is not empty to begin
  with: every addressed note has a block, every addressed checklist has an item. The
  other actions need nothing of the kind.
\<close>

fun has_items :: "block \<Rightarrow> bool" where
  "has_items (ChecklistBlock i its) = (its \<noteq> [])"
| "has_items b = True"

fun nonempty_target :: "EditorState \<Rightarrow> EditorAction \<Rightarrow> bool" where
  "nonempty_target s (REMOVE_BLOCK noteId blockId) =
     list_all (\<lambda>n. note_id n = noteId \<longrightarrow> blocks n \<noteq> []) (st_notes s)"
| "nonempty_target s (REMOVE_CHECKLIST_ITEM noteId blockId itemId) =
     list_all (\<lambda>n. note_id n = noteId \<longrightarrow>
         list_all (\<lambda>b. block_id b = blockId \<longrightarrow> has_items b) (blocks n))
       (st_notes s)"
| "nonempty_target s a = True"

text \<open>
  Two notes that agree on every field other than \<open>updatedAt\<close>. Two states with the
  same active id whose notes are, position by position, such a pair where the note
  has the given id, and the same note where it has another id.
\<close>

definition restamped :: "Note \<Rightarrow> Note \<Rightarrow> bool" where
  "restamped n n' = (n' = n\<lparr>updatedAt := updatedAt n'\<rparr>)"

definition only_stamps :: "string \<Rightarrow> EditorState \<Rightarrow> EditorState \<Rightarrow> bool" where
  "only_stamps noteId s s' =
     (activeNoteId s' = activeNoteId s
      \<and> list_all2 (\<lambda>n n'. if note_id n = noteId then restamped n n' else n' = n)
          (st_notes s) (st_notes s'))"

text \<open>The test of both loops of the key handlers for a list item or task item node.\<close>

definition is_item :: "pm_node \<Rightarrow> bool" where
  "is_item n = (type_name n = ''listItem'' \<or> type_name n = ''taskItem'')"

section \<open>Example values\<close>

text \<open>
  A world whose clock advances by one millisecond per read, and one whose clock
  stands at the same millisecond for every read; ids are \<open>id-\<close>, \<open>id-x\<close>, \<open>id-xx\<close>, ...
\<close>

definition example_world :: world where
  "example_world =
     \<lparr>clock = (\<lambda>k. 2000 + int k), clock_reads = 0, has_randomUUID = True,
      idgen = (\<lambda>k. ''id-'' @ replicate k (CHR ''x'')), ids_made = 0,
      random36 = (\<lambda>k. ''r'' @ replicate k (CHR ''y'')), random_reads = 0\<rparr>"

definition stalled_world :: world where
  "stalled_world =
     \<lparr>clock = (\<lambda>k. 1000), clock_reads = 0, has_randomUUID = True,
      idgen = (\<lambda>k. ''id-'' @ replicate k (CHR ''x'')), ids_made = 0,
      random36 = (\<lambda>k. ''r'' @ replicate k (CHR ''y'')), random_reads = 0\<rparr>"

text \<open>The same environment without \<open>crypto.randomUUID\<close>.\<close>

definition fallback_world :: world where
  "fallback_world =
     \<lparr>clock = (\<lambda>k. 2000 + int k), clock_reads = 0, has_randomUUID = False,
      idgen = (\<lambda>k. ''id-'' @ replicate k (CHR ''x'')), ids_made = 0,
      random36 = (\<lambda>k. ''r'' @ replicate k (CHR ''y'')), random_reads = 0\<rparr>"

definition example_note :: Note where
  "example_note =
     \<lparr>note_id = ''n1'', title = ''t'', body = ''<p></p>'',
      blocks = [Paragraph ''b1'' emptyContent], createdAt = 1000, updatedAt = 1000\<rparr>"

definition example_state :: EditorState where
  "example_state = \<lparr>st_notes = [example_note], activeNoteId = Some ''n1''\<rparr>"

definition list_note :: Note where
  "list_note =
     \<lparr>note_id = ''n2'', title = ''l'', body = ''<p></p>'',
      blocks = [ListBlock ''b2'' False [LSpans [plainSpan ''a''], LSpans [plainSpan ''b'']] [],
                ChecklistBlock ''b3'' [CCheck \<lparr>item_id = ''i1'', checked = False,
                                               item_content = emptyContent\<rparr>]],
      createdAt = 1000, updatedAt = 1000\<rparr>"

definition list_state :: EditorState where
  "list_state = \<lparr>st_notes = [example_note, list_note], activeNoteId = Some ''n1''\<rparr>"

text \<open>A patch that carries nothing but an empty \<open>items\<close> array: \<open>{ items: [] }\<close>.\<close>

definition empty_items_patch :: patch where
  "empty_items_patch =
     \<lparr>p_id = None, p_type = None, p_content = None, p_level = None, p_ordered = None,
      p_items = Some (PListItems [])\<rparr>"

text \<open>
  A state whose one note has one block, a heading with the id \<open>id-\<close>; and the
  environment after the generator has handed out its first id, \<open>id-\<close>.
\<close>

definition reloaded_state :: EditorState where
  "reloaded_state =
     \<lparr>st_notes = [\<lparr>note_id = ''n1'', title = ''t'', body = ''<p></p>'',
                    blocks = [Heading ''id-'' L1 [plainSpan ''h'']],
                    createdAt = 1000, updatedAt = 1000\<rparr>],
      activeNoteId = Some ''n1''\<rparr>"

definition drawn_world :: world where
  "drawn_world =
     \<lparr>clock = (\<lambda>k. 2000 + int k), clock_reads = 0, has_randomUUID = True,
      idgen = (\<lambda>k. ''id-'' @ replicate k (CHR ''x'')), ids_made = 1,
      random36 = (\<lambda>k. ''r'' @ replicate k (CHR ''y'')), random_reads = 0\<rparr>"

text \<open>A note that has lost its blocks, as a load may supply it.\<close>

definition blockless_state :: EditorState where
  "blockless_state =
     \<lparr>st_notes = [\<lparr>note_id = ''n1'', title = ''t'', body = ''<p></p>'', blocks = [],
                    createdAt = 1000, updatedAt = 1000\<rparr>],
      activeNoteId = Some ''n1''\<rparr>"

text \<open>
  A state whose active id is the id of no note, and a state whose note holds a
  checklist without items.
\<close>

definition dangling_state :: EditorState where
  "dangling_state = \<lparr>st_notes = [example_note], activeNoteId = Some ''n9''\<rparr>"

definition itemless_state :: EditorState where
  "itemless_state =
     \<lparr>st_notes = [\<lparr>note_id = ''n1'', title = ''t'', body = ''<p></p>'',
                    blocks = [ChecklistBlock ''c1'' []], createdAt = 1000, updatedAt = 1000\<rparr>],
      activeNoteId = Some ''n1''\<rparr>"

text \<open>
  Cursor positions in the empty paragraph of a bullet list item: the item with that
  paragraph as its only child, and the item with a nested list as a second child.
\<close>

definition doc_node :: pm_node where
  "doc_node = \<lparr>type_name = ''doc'', isTextblock = False, textContent = [], childCount = 1\<rparr>"

definition bulletList_node :: pm_node where
  "bulletList_node =
     \<lparr>type_name = ''bulletList'', isTextblock = False, textContent = [], childCount = 1\<rparr>"

definition leaf_item :: pm_node where
  "leaf_item = \<lparr>type_name = ''listItem'', isTextblock = False, textContent = [], childCount = 1\<rparr>"

definition item_with_sublist :: pm_node where
  "item_with_sublist =
     \<lparr>type_name = ''listItem'', isTextblock = False, textContent = ''sub'', childCount = 2\<rparr>"

definition empty_paragraph :: pm_node where
  "empty_paragraph =
     \<lparr>type_name = ''paragraph'', isTextblock = True, textContent = [], childCount = 0\<rparr>"

definition pos_leaf :: resolved_pos where
  "pos_leaf = \<lparr>doc = doc_node, ancestors = [bulletList_node, leaf_item, empty_paragraph]\<rparr>"

definition pos_sublist :: resolved_pos where
  "pos_sublist =
     \<lparr>doc = doc_node, ancestors = [bulletList_node, item_with_sublist, empty_paragraph]\<rparr>"

section \<open>Properties of the codec\<close>

text \<open>
  C4. For every string \<open>s\<close>, flattening the span sequence produced by
  \<open>textToSpans s\<close> gives back \<open>s\<close>.
\<close>

theorem spansToText_textToSpans: "spansToText (textToSpans s) = s"
  by (simp add: spansToText_def textToSpans_def)

text \<open>
  C8. Migrating the empty block sequence and migrating a sequence that holds exactly
  one blank paragraph (a paragraph whose content is one empty span) both return the
  markup \<open><p></p>\<close>, which is not the empty string; this holds for every id of the
  paragraph.
\<close>

theorem blocksToHtml_empty_document:
  "blocksToHtml [] = Inr ''<p></p>''
   \<and> blocksToHtml [Paragraph i emptyContent] = Inr ''<p></p>''
   \<and> ''<p></p>'' \<noteq> ''''"
  by (simp add: blocksToHtml_def spansToHtml_def spanToHtml_def esc_def
      emptyContent_def plainSpan_def)

section \<open>Facts about the array operations\<close>

lemmas unlet = case_prod_unfold Let_def

lemmas example_defs = example_world_def example_note_def example_state_def
  list_note_def list_state_def emptyContent_def plainSpan_def

lemmas pos_defs = doc_node_def bulletList_node_def leaf_item_def item_with_sublist_def
  empty_paragraph_def pos_leaf_def pos_sublist_def

lemma world_le_refl: "world_le w w"
  by (simp add: world_le_def)

lemma world_le_trans: "world_le a b \<Longrightarrow> world_le b c \<Longrightarrow> world_le a c"
  by (simp add: world_le_def)

lemma mapEff_Cons:
  "mapEff f (x # xs) w =
     (fst (f x w) # fst (mapEff f xs (snd (f x w))), snd (mapEff f xs (snd (f x w))))"
  by (simp add: unlet)

declare mapEff.simps(2) [simp del]

lemma mapEff_length: "length (fst (mapEff f xs w)) = length xs"
  by (induction xs arbitrary: w) (simp_all add: mapEff_Cons)

lemma mapEff_list_all:
  assumes "\<And>x w. P x \<Longrightarrow> P (fst (f x w))"
  shows "list_all P xs \<Longrightarrow> list_all P (fst (mapEff f xs w))"
  by (induction xs arbitrary: w) (simp_all add: mapEff_Cons assms)

lemma mapEff_list_all2:
  assumes "\<And>x w. x \<in> set xs \<Longrightarrow> R x (fst (f x w))"
  shows "list_all2 R xs (fst (mapEff f xs w))"
  using assms by (induction xs arbitrary: w) (simp_all add: mapEff_Cons)

lemma mapEff_Pair: "mapEff (\<lambda>x. Pair (g x)) xs w = (map g xs, w)"
  by (induction xs arbitrary: w) (simp_all add: mapEff_Cons)

lemma mapEff_unchanged:
  assumes "\<And>x w. x \<in> set xs \<Longrightarrow> f x w = (x, w)"
  shows "mapEff f xs w = (xs, w)"
  using assms by (induction xs arbitrary: w) (simp_all add: mapEff_Cons)

lemma mapEff_world_le:
  assumes "\<And>x w. world_le w (snd (f x w))"
  shows "world_le w (snd (mapEff f xs w))"
proof (induction xs arbitrary: w)
  case Nil
  show ?case by (simp add: world_le_refl)
next
  case (Cons x xs)
  from world_le_trans[OF assms[of w x] Cons.IH[of "snd (f x w)"]]
  show ?case by (simp add: mapEff_Cons)
qed

text \<open>
  The \<open>i\<close>-th result of an effectful map is the callback applied to the \<open>i\<close>-th
  element in some world between the initial and the final one.
\<close>

lemma mapEff_nth_between:
  assumes mono: "\<And>x w. world_le w (snd (f x w))"
  shows "i < length xs \<Longrightarrow>
    \<exists>w1. world_le w w1 \<and> world_le (snd (f (xs ! i) w1)) (snd (mapEff f xs w))
         \<and> fst (mapEff f xs w) ! i = fst (f (xs ! i) w1)"
proof (induction xs arbitrary: i w)
  case Nil
  then show ?case by simp
next
  case (Cons x xs)
  let ?w1 = "snd (f x w)"
  have step: "world_le w ?w1" by (rule mono)
  show ?case
  proof (cases i)
    case 0
    have "world_le ?w1 (snd (mapEff f xs ?w1))" by (rule mapEff_world_le[OF mono])
    then show ?thesis using 0
      by (intro exI[of _ w]) (simp add: world_le_refl mapEff_Cons)
  next
    case (Suc j)
    with Cons.prems have "j < length xs" by simp
    from Cons.IH[OF this, of ?w1] obtain w2 where
      "world_le ?w1 w2" "world_le (snd (f (xs ! j) w2)) (snd (mapEff f xs ?w1))"
      "fst (mapEff f xs ?w1) ! j = fst (f (xs ! j) w2)" by blast
    then show ?thesis using Suc step
      by (intro exI[of _ w2]) (auto simp: mapEff_Cons intro: world_le_trans)
  qed
qed

lemma mapBlock_pure:
  "mapBlock bs bid (pure g) w = (map (\<lambda>b. if block_id b = bid then g b else b) bs, w)"
proof -
  have "(\<lambda>b. if block_id b = bid then pure g b else Pair b)
        = (\<lambda>b. Pair (if block_id b = bid then g b else b))"
    by (auto simp: pure_def fun_eq_iff)
  then show ?thesis by (simp add: mapBlock_def mapEff_Pair)
qed

lemma mapNote_nth:
  assumes "\<And>w1. P (fst (fn (ns ! i) w1))" "i < length ns" "note_id (ns ! i) = nid"
  shows "P (fst (mapNote ns nid fn w) ! i)"
proof -
  have "list_all2 (\<lambda>n n'. n = ns ! i \<longrightarrow> P n') ns (fst (mapNote ns nid fn w))"
    unfolding mapNote_def using assms by (intro mapEff_list_all2) auto
  then show ?thesis using assms(2) by (auto simp: list_all2_conv_all_nth)
qed

lemma editorReducer_noteCallback:
  "noteCallback a = Some (nid, fn) \<Longrightarrow>
   editorReducer s a w =
     (s\<lparr>st_notes := fst (mapNote (st_notes s) nid fn w)\<rparr>, snd (mapNote (st_notes s) nid fn w))"
  by (cases a) (auto simp: unlet)

lemma touch_fields:
  "blocks (fst (touch n w)) = blocks n" "note_id (fst (touch n w)) = note_id n"
  "title (fst (touch n w)) = title n" "body (fst (touch n w)) = body n"
  "createdAt (fst (touch n w)) = createdAt n"
  "updatedAt (fst (touch n w)) = clock w (clock_reads w)"
  "snd (touch n w) = w\<lparr>clock_reads := Suc (clock_reads w)\<rparr>"
  by (simp_all add: touch_def now_def)

lemma length_spliceInsert: "length (spliceInsert k x xs) = Suc (length xs)"
  by (simp add: spliceInsert_def Let_def)

lemma list_all_spliceInsert:
  "list_all P xs \<Longrightarrow> P x \<Longrightarrow> list_all P (spliceInsert k x xs)"
proof -
  assume a: "list_all P xs" and x: "P x"
  have "list_all P (take n xs)" and "list_all P (drop n xs)" for n
    using a by (auto simp: list_all_iff dest: in_set_takeD in_set_dropD)
  then show ?thesis using x by (simp add: spliceInsert_def Let_def)
qed

lemma length_assignIndex: "length xs \<le> length (fst (assignIndex i v (xs, ps)))"
  by (simp add: assignIndex_def)

lemma length_spread: "length (spread xs) = length xs"
  by (simp add: spread_def)

lemma findIndex_bounds: "- 1 \<le> findIndex p xs \<and> findIndex p xs < int (length xs)"
  by (induction xs) (auto simp: Let_def)

lemma findIndex_lt: "findIndex p xs < int (length xs)"
  using findIndex_bounds[of p xs] by simp

lemma findIndex_none: "\<forall>x\<in>set xs. \<not> p x \<Longrightarrow> findIndex p xs = - 1"
  by (induction xs) (simp_all add: Let_def)

lemma list_all_swap:
  "list_all P xs \<Longrightarrow> i < length xs \<Longrightarrow> j < length xs \<Longrightarrow> list_all P (xs[i := xs ! j, j := xs ! i])"
  by (auto simp: list_all_length nth_list_update)

section \<open>The structural invariant\<close>

lemma wf_note_touch: "wf_note (fst (touch n w)) = wf_note n"
  by (simp add: wf_note_def touch_fields)

lemma wf_mergePatch: "wf_patch_items (p_items p) \<Longrightarrow> wf_block b \<Longrightarrow> wf_block (mergePatch p b)"
  by (cases b; cases "p_items p" rule: wf_patch_items.cases) (simp_all add: Let_def)

lemma wf_updateBlockContent: "wf_block b \<Longrightarrow> wf_block (updateBlockContent c b)"
  by (cases b) simp_all

lemma wf_updateListItem: "wf_block b \<Longrightarrow> wf_block (updateListItem i c b)"
proof (cases b)
  case (ListBlock bid ord its ps)
  assume "wf_block b"
  with ListBlock have "1 \<le> length (spread its)" by (simp add: length_spread)
  also have "\<dots> \<le> length (fst (assignIndex i (LSpans c) (spread its, [])))"
    by (rule length_assignIndex)
  finally show ?thesis using ListBlock by (simp add: unlet)
qed simp_all

lemma wf_addListItem: "wf_block b \<Longrightarrow> wf_block (addListItem i b)"
  by (cases b) (simp_all add: length_spliceInsert)

lemma wf_removeListItem: "wf_block b \<Longrightarrow> wf_block (removeListItem i b)"
  by (cases b) (simp_all add: Let_def Suc_le_eq)

lemma wf_toggleChecklistItem: "wf_block b \<Longrightarrow> wf_block (toggleChecklistItem i b)"
  by (cases b) simp_all

lemma wf_updateChecklistItem: "wf_block b \<Longrightarrow> wf_block (updateChecklistItem i c b)"
  by (cases b) simp_all

lemma wf_addChecklistItem: "wf_block b \<Longrightarrow> wf_block (fst (addChecklistItem i b w))"
  by (cases b) (simp_all add: unlet length_spliceInsert)

lemma wf_removeChecklistItem: "wf_block b \<Longrightarrow> wf_block (fst (removeChecklistItem i b w))"
  by (cases b) (simp_all add: unlet Suc_le_eq)

lemma wf_mapBlock:
  assumes "\<And>b w. wf_block b \<Longrightarrow> wf_block (fst (fn b w))"
  shows "list_all wf_block bs \<Longrightarrow> list_all wf_block (fst (mapBlock bs bid fn w))"
  unfolding mapBlock_def by (rule mapEff_list_all) (simp_all add: assms)

lemma wf_touchBlocks:
  assumes "\<And>b w. wf_block b \<Longrightarrow> wf_block (fst (fn b w))"
  shows "wf_note n \<Longrightarrow> wf_note (fst (touchBlocks bid fn n w))"
  using wf_mapBlock[of fn "blocks n" bid w, OF assms]
  by (simp add: touchBlocks_def unlet wf_note_touch)
     (simp add: wf_note_def mapBlock_def mapEff_length)

lemma wf_addBlock: "wf_block b \<Longrightarrow> wf_note n \<Longrightarrow> wf_note (fst (addBlock a b n w))"
  by (simp add: addBlock_def Let_def wf_note_touch)
     (simp add: wf_note_def length_spliceInsert list_all_spliceInsert)

lemma wf_removeBlock: "wf_note n \<Longrightarrow> wf_note (fst (removeBlock bid n w))"
  by (simp add: removeBlock_def unlet wf_note_touch)
     (auto simp: wf_note_def createParagraphBlock_def unlet list_all_iff Suc_le_eq)

lemma wf_moveBlock: "wf_note n \<Longrightarrow> wf_note (fst (moveBlock bid dir n w))"
  by (simp add: moveBlock_def Let_def wf_note_touch)
     (use findIndex_lt[of "\<lambda>b. block_id b = bid" "blocks n"] in
       \<open>auto simp: wf_note_def intro!: list_all_swap\<close>)

lemma wf_mapNote:
  assumes "\<And>n w. wf_note n \<Longrightarrow> wf_note (fst (fn n w))"
  shows "list_all wf_note ns \<Longrightarrow> list_all wf_note (fst (mapNote ns nid fn w))"
  unfolding mapNote_def by (rule mapEff_list_all) (simp_all add: assms)

lemma wf_note_title_body:
  "wf_note (n\<lparr>title := t\<rparr>) = wf_note n" "wf_note (n\<lparr>body := t\<rparr>) = wf_note n"
  by (simp_all add: wf_note_def)

lemma wf_createNote: "wf_note (fst (createNote w))"
  by (simp add: createNote_def createParagraphBlock_def unlet wf_note_def)

lemma wf_editorReducer:
  "wf_state s \<Longrightarrow> wf_action a \<Longrightarrow> wf_state (fst (editorReducer s a w))"
proof (cases a)
  case CREATE_NOTE
  assume "wf_state s" then show ?thesis using CREATE_NOTE
    by (simp add: wf_state_def unlet wf_createNote)
next
  case (DELETE_NOTE nid)
  assume "wf_state s" then show ?thesis using DELETE_NOTE
    by (simp add: wf_state_def Let_def list_all_iff)
qed (simp_all add: wf_state_def unlet pure_def wf_note_title_body wf_mapNote wf_touchBlocks
      wf_note_touch wf_addBlock wf_removeBlock wf_moveBlock wf_mergePatch wf_updateBlockContent
      wf_updateListItem wf_addListItem wf_removeListItem wf_toggleChecklistItem
      wf_updateChecklistItem wf_addChecklistItem wf_removeChecklistItem)

text \<open>
  C1. From a well-formed state (every note has at least one block, every list and
  checklist block at least one item), any finite sequence of reducer actions leads to
  a well-formed state, provided every note, block and patch carried by an action is
  well formed: the notes of \<open>LOAD_NOTES\<close>, the block of \<open>ADD_BLOCK\<close> and of
  \<open>REPLACE_BLOCK\<close>, and the patch of \<open>UPDATE_BLOCK\<close>, which either has no \<open>items\<close>
  property or has an array of at least one item there. A patch holds a value under
  every property it has: one with \<open>items: undefined\<close> is not among the actions of this
  statement.
\<close>

theorem dispatchAll_preserves_wf:
  "wf_state s \<Longrightarrow> list_all wf_action as \<Longrightarrow> wf_state (fst (dispatchAll as s w))"
  by (induction as arbitrary: s w) (simp_all add: unlet wf_editorReducer)

theorem dispatchAll_preserves_wf_witness:
  "wf_state initialEditorState
   \<and> list_all wf_action [CREATE_NOTE, REMOVE_BLOCK ''id-'' ''id-x'',
        ADD_BLOCK ''id-'' ''id-xx'' (ListBlock ''l1'' True [LSpans emptyContent] []),
        REMOVE_LIST_ITEM ''id-'' ''l1'' 0]
   \<and> wf_state (fst (dispatchAll [CREATE_NOTE, REMOVE_BLOCK ''id-'' ''id-x'',
        ADD_BLOCK ''id-'' ''id-xx'' (ListBlock ''l1'' True [LSpans emptyContent] []),
        REMOVE_LIST_ITEM ''id-'' ''l1'' 0] initialEditorState example_world))"
  using dispatchAll_preserves_wf[of initialEditorState "[CREATE_NOTE, REMOVE_BLOCK ''id-'' ''id-x'',
        ADD_BLOCK ''id-'' ''id-xx'' (ListBlock ''l1'' True [LSpans emptyContent] []),
        REMOVE_LIST_ITEM ''id-'' ''l1'' 0]" example_world]
  by (simp add: example_defs initialEditorState_def wf_state_def wf_note_def)

text \<open>
  With only the notes of \<open>LOAD_NOTES\<close> restricted, the invariant fails: \<open>ADD_BLOCK\<close>
  and \<open>REPLACE_BLOCK\<close> store the block they are given, here a list block and a
  checklist block with no item, and \<open>UPDATE_BLOCK\<close> stores the \<open>items\<close> of its
  patch, here the empty array.
\<close>

theorem invariant_broken_by_add_block:
  "wf_state example_state
   \<and> list_all loads_wf [ADD_BLOCK ''n1'' ''b1'' (ListBlock ''l1'' False [] [])]
   \<and> \<not> wf_state (fst (dispatchAll [ADD_BLOCK ''n1'' ''b1'' (ListBlock ''l1'' False [] [])]
                        example_state example_world))
   \<and> list_all loads_wf [REPLACE_BLOCK ''n1'' ''b1'' (ChecklistBlock ''c1'' [])]
   \<and> \<not> wf_state (fst (dispatchAll [REPLACE_BLOCK ''n1'' ''b1'' (ChecklistBlock ''c1'' [])]
                        example_state example_world))
   \<and> wf_state list_state
   \<and> list_all loads_wf [UPDATE_BLOCK ''n2'' ''b2'' empty_items_patch]
   \<and> \<not> wf_state (fst (dispatchAll [UPDATE_BLOCK ''n2'' ''b2'' empty_items_patch]
                        list_state example_world))"
  by (simp add: example_defs empty_items_patch_def wf_state_def wf_note_def mapNote_def
      mapEff_Cons addBlock_def touchBlocks_def mapBlock_pure touch_def now_def spliceInsert_def
      unlet)

section \<open>Note lifecycle\<close>

text \<open>
  C6. \<open>DELETE_NOTE\<close> keeps the notes whose id differs. If the deleted id is the
  active one and notes remain, the active id becomes the id of the first remaining
  note; if none remains, it becomes null. Deleting the only note leaves no note and
  a null active id (the active id being, before, that note's or already null).
  If the deleted id is not the active one, the active id is unchanged.
\<close>

theorem delete_note_activeNoteId:
  fixes s :: EditorState and noteId :: string and w :: world and n :: Note
  defines "remaining \<equiv> filter (\<lambda>n. note_id n \<noteq> noteId) (st_notes s)"
  defines "s' \<equiv> fst (editorReducer s (DELETE_NOTE noteId) w)"
  shows "st_notes s' = remaining
    \<and> (activeNoteId s = Some noteId \<and> remaining \<noteq> [] \<longrightarrow>
          activeNoteId s' = Some (note_id (hd remaining)))
    \<and> (activeNoteId s = Some noteId \<and> remaining = [] \<longrightarrow> activeNoteId s' = None)
    \<and> (st_notes s = [n] \<and> note_id n = noteId
          \<and> (activeNoteId s = None \<or> activeNoteId s = Some noteId) \<longrightarrow>
          st_notes s' = [] \<and> activeNoteId s' = None)
    \<and> (activeNoteId s \<noteq> Some noteId \<longrightarrow> activeNoteId s' = activeNoteId s)"
  unfolding remaining_def s'_def
  by (auto simp: Let_def split: list.splits)

theorem delete_note_activeNoteId_witness:
  "activeNoteId (fst (editorReducer list_state (DELETE_NOTE ''n1'') example_world)) = Some ''n2''
   \<and> activeNoteId (fst (editorReducer example_state (DELETE_NOTE ''n1'') example_world)) = None
   \<and> st_notes (fst (editorReducer example_state (DELETE_NOTE ''n1'') example_world)) = []
   \<and> activeNoteId (fst (editorReducer list_state (DELETE_NOTE ''n2'') example_world)) = Some ''n1''"
  using delete_note_activeNoteId[of list_state "''n1''" example_world example_note]
    delete_note_activeNoteId[of example_state "''n1''" example_world example_note]
    delete_note_activeNoteId[of list_state "''n2''" example_world example_note]
  by (simp add: example_defs)

section \<open>Patching a block\<close>

lemma mergePatch_keeps:
  "block_id (mergePatch p b) = block_id b \<and> type_of (mergePatch p b) = type_of b"
  by (cases b) (simp_all add: Let_def split: option.splits patch_items.splits)

lemma tags_touchBlocks_mergePatch:
  "tags (fst (touchBlocks bid (pure (mergePatch p)) n w)) = tags n"
  by (simp add: touchBlocks_def mapBlock_pure touch_fields tags_def mergePatch_keeps)

text \<open>
  C7. For every block and every patch, whatever \<open>id\<close> and \<open>type\<close> the patch
  carries, the patched block has the id and the type discriminant of the original;
  and after \<open>UPDATE_BLOCK\<close> every note has the same blocks, by id and type and in
  the same order, as before.
\<close>

theorem update_block_keeps_id_and_type:
  "block_id (mergePatch p b) = block_id b
   \<and> type_of (mergePatch p b) = type_of b
   \<and> map tags (st_notes (fst (editorReducer s (UPDATE_BLOCK noteId blockId p) w)))
       = map tags (st_notes s)"
proof -
  have "list_all2 (\<lambda>n n'. tags n' = tags n) (st_notes s)
          (fst (mapNote (st_notes s) noteId (touchBlocks blockId (pure (mergePatch p))) w))"
    unfolding mapNote_def
    by (rule mapEff_list_all2) (simp add: tags_touchBlocks_mergePatch)
  then have "map tags (fst (mapNote (st_notes s) noteId (touchBlocks blockId (pure (mergePatch p))) w))
             = map tags (st_notes s)"
    by (induction rule: list_all2_induct) simp_all
  then show ?thesis by (simp add: mergePatch_keeps unlet)
qed

theorem update_block_keeps_id_and_type_witness:
  "mergePatch \<lparr>p_id = Some ''other'', p_type = Some T_list, p_content = Some [plainSpan ''x''],
                p_level = None, p_ordered = None, p_items = None\<rparr> (Paragraph ''b1'' emptyContent)
   = Paragraph ''b1'' [plainSpan ''x'']
   \<and> block_id (Paragraph ''b1'' [plainSpan ''x'']) = ''b1''
   \<and> type_of (Paragraph ''b1'' [plainSpan ''x'']) = T_paragraph"
  using update_block_keeps_id_and_type[of
      "\<lparr>p_id = Some ''other'', p_type = Some T_list, p_content = Some [plainSpan ''x''],
        p_level = None, p_ordered = None, p_items = None\<rparr>" "Paragraph ''b1'' emptyContent"]
  by simp

section \<open>Writing a list item at an index\<close>

text \<open>
  In a list of two items, \<open>UPDATE_LIST_ITEM\<close> with the index \<open>4294967295\<close>
  (\<open>2^32 - 1\<close>, greater than the length) does not grow the array: its length is
  still two, there is no \<open>undefined\<close> entry after the former last item and the
  content is no last item; it sits on the array as a property of that name. The same
  happens with the index \<open>-1\<close>.
\<close>

theorem update_list_item_beyond_array_index:
  "blocks (st_notes (fst (editorReducer list_state
       (UPDATE_LIST_ITEM ''n2'' ''b2'' 4294967295 [plainSpan ''e'']) example_world)) ! 1) ! 0
   = ListBlock ''b2'' False [LSpans [plainSpan ''a''], LSpans [plainSpan ''b'']]
       [(4294967295, LSpans [plainSpan ''e''])]
   \<and> blocks (st_notes (fst (editorReducer list_state
       (UPDATE_LIST_ITEM ''n2'' ''b2'' (- 1) [plainSpan ''e'']) example_world)) ! 1) ! 0
   = ListBlock ''b2'' False [LSpans [plainSpan ''a''], LSpans [plainSpan ''b'']]
       [(- 1, LSpans [plainSpan ''e''])]"
  by (simp add: example_defs mapNote_def mapEff_Cons touchBlocks_def mapBlock_pure touch_def
      now_def unlet assignIndex_def isArrayIndex_def spread_def)

text \<open>
  C10. For an existing note and an existing list block, \<open>UPDATE_LIST_ITEM\<close> with
  any integer \<open>itemIndex\<close> assigns the content at that index of the spread copy of
  \<open>items\<close>, whatever the length: reading \<open>items[itemIndex]\<close> of the result gives
  the content. If the index is an array index (from \<open>0\<close> to \<open>2^32 - 2\<close>): inside the
  array the entry is replaced; at or past the end the new \<open>items\<close> is the old one
  (spread), then one hole for every index between the old length and the index, then
  the content, so its length is the index plus one, every index in between reads as
  \<open>undefined\<close>, and it differs from the old array; with the index equal to the old
  length there is no index in between and the content is appended. If the index is
  no array index (negative, or \<open>2^32 - 1\<close> and more), the entries and the length are
  those of the spread copy and the content is the array's one property, under that
  index.
\<close>

theorem update_list_item_any_index:
  assumes i: "i < length (st_notes s)" and nid: "note_id (st_notes s ! i) = noteId"
    and j: "j < length (blocks (st_notes s ! i))"
    and b: "blocks (st_notes s ! i) ! j = ListBlock blockId ord its ps"
  shows "\<exists>items props.
      blocks (st_notes (fst (editorReducer s (UPDATE_LIST_ITEM noteId blockId itemIndex content) w)) ! i) ! j
        = ListBlock blockId ord items props
    \<and> readIndex (items, props) itemIndex = LSpans content
    \<and> (isArrayIndex itemIndex \<and> itemIndex < int (length its) \<longrightarrow>
          items = (spread its)[nat itemIndex := LSpans content] \<and> props = [])
    \<and> (isArrayIndex itemIndex \<and> int (length its) \<le> itemIndex \<longrightarrow>
          items = spread its @ replicate (nat itemIndex - length its) Hole @ [LSpans content]
        \<and> props = []
        \<and> length items = nat itemIndex + 1
        \<and> take (length its) items = spread its
        \<and> (\<forall>k. length its \<le> k \<and> k < nat itemIndex \<longrightarrow>
              items ! k = Hole \<and> readIndex (items, props) (int k) = Undefined)
        \<and> items \<noteq> its)
    \<and> (\<not> isArrayIndex itemIndex \<longrightarrow>
          items = spread its \<and> props = [(itemIndex, LSpans content)])"
proof -
  let ?arr = "assignIndex itemIndex (LSpans content) (spread its, [])"
  let ?grown = "spread its @ replicate (nat itemIndex - length its) Hole @ [LSpans content]"
  let ?fn = "touchBlocks blockId (pure (updateListItem itemIndex content))"
  have "blocks (fst (?fn (st_notes s ! i) w1)) ! j = ListBlock blockId ord (fst ?arr) (snd ?arr)"
    for w1
    using j b by (simp add: touchBlocks_def mapBlock_pure touch_fields unlet)
  from mapNote_nth[where P = "\<lambda>n. blocks n ! j = ListBlock blockId ord (fst ?arr) (snd ?arr)"
      and fn = ?fn, OF this i nid]
  have "blocks (st_notes (fst (editorReducer s (UPDATE_LIST_ITEM noteId blockId itemIndex content) w)) ! i) ! j
        = ListBlock blockId ord (fst ?arr) (snd ?arr)"
    by (simp add: unlet)
  moreover have "readIndex (fst ?arr, snd ?arr) itemIndex = LSpans content"
    by (auto simp: assignIndex_def readIndex_def nth_append length_spread)
  moreover have "fst ?arr = (spread its)[nat itemIndex := LSpans content] \<and> snd ?arr = []"
    if "isArrayIndex itemIndex" "itemIndex < int (length its)"
    using that by (auto simp: assignIndex_def isArrayIndex_def length_spread)
  moreover have "fst ?arr = ?grown \<and> snd ?arr = []"
    if "isArrayIndex itemIndex" "int (length its) \<le> itemIndex"
    using that by (auto simp: assignIndex_def length_spread)
  moreover have "length ?grown = nat itemIndex + 1" if "int (length its) \<le> itemIndex"
    using that by (auto simp: length_spread)
  moreover have "take (length its) ?grown = spread its" by (simp add: length_spread)
  moreover have "?grown ! k = Hole \<and> readIndex (?grown, []) (int k) = Undefined"
    if "isArrayIndex itemIndex" "int (length its) \<le> itemIndex"
      "length its \<le> k \<and> k < nat itemIndex" for k
    using that by (auto simp: nth_append length_spread readIndex_def isArrayIndex_def)
  moreover have "?grown \<noteq> its"
  proof
    assume "?grown = its"
    then have "length ?grown = length its" by simp
    then show False by (simp add: length_spread)
  qed
  moreover have "fst ?arr = spread its \<and> snd ?arr = [(itemIndex, LSpans content)]"
    if "\<not> isArrayIndex itemIndex"
    using that by (simp add: assignIndex_def)
  ultimately show ?thesis by (intro exI[of _ "fst ?arr"] exI[of _ "snd ?arr"]) auto
qed

theorem update_list_item_any_index_witness:
  "blocks (st_notes (fst (editorReducer list_state
       (UPDATE_LIST_ITEM ''n2'' ''b2'' 4 [plainSpan ''e'']) example_world)) ! 1) ! 0
   = ListBlock ''b2'' False
       [LSpans [plainSpan ''a''], LSpans [plainSpan ''b''], Hole, Hole, LSpans [plainSpan ''e'']] []
   \<and> blocks (st_notes (fst (editorReducer list_state
       (UPDATE_LIST_ITEM ''n2'' ''b2'' 2 [plainSpan ''e'']) example_world)) ! 1) ! 0
   = ListBlock ''b2'' False
       [LSpans [plainSpan ''a''], LSpans [plainSpan ''b''], LSpans [plainSpan ''e'']] []
   \<and> blocks (st_notes (fst (editorReducer list_state
       (UPDATE_LIST_ITEM ''n2'' ''b2'' 0 [plainSpan ''e'']) example_world)) ! 1) ! 0
   = ListBlock ''b2'' False [LSpans [plainSpan ''e''], LSpans [plainSpan ''b'']] []
   \<and> blocks (st_notes (fst (editorReducer list_state
       (UPDATE_LIST_ITEM ''n2'' ''b2'' (- 2) [plainSpan ''e'']) example_world)) ! 1) ! 0
   = ListBlock ''b2'' False [LSpans [plainSpan ''a''], LSpans [plainSpan ''b'']]
       [(- 2, LSpans [plainSpan ''e''])]
   \<and> readIndex ([LSpans [plainSpan ''a''], LSpans [plainSpan ''b'']],
        [(- 2, LSpans [plainSpan ''e''])]) (- 2) = LSpans [plainSpan ''e'']"
  using update_list_item_any_index[of 1 list_state "''n2''" 0 "''b2''" False
      "[LSpans [plainSpan ''a''], LSpans [plainSpan ''b'']]" "[]" 4 "[plainSpan ''e'']" example_world]
    update_list_item_any_index[of 1 list_state "''n2''" 0 "''b2''" False
      "[LSpans [plainSpan ''a''], LSpans [plainSpan ''b'']]" "[]" 2 "[plainSpan ''e'']" example_world]
    update_list_item_any_index[of 1 list_state "''n2''" 0 "''b2''" False
      "[LSpans [plainSpan ''a''], LSpans [plainSpan ''b'']]" "[]" 0 "[plainSpan ''e'']" example_world]
    update_list_item_any_index[of 1 list_state "''n2''" 0 "''b2''" False
      "[LSpans [plainSpan ''a''], LSpans [plainSpan ''b'']]" "[]" "- 2" "[plainSpan ''e'']" example_world]
  by (simp add: example_defs spread_def numeral_2_eq_2 isArrayIndex_def readIndex_def)

section \<open>Enter in a list item\<close>

lemma node_Suc: "node pos (Suc d) = ancestors pos ! d"
  by (simp add: node_def)

lemma listItemTypeName_loop_Suc:
  "listItemTypeName_loop pos (Suc d) =
     (if is_item (ancestors pos ! d) then Some (type_name (ancestors pos ! d))
      else listItemTypeName_loop pos d)"
  by (simp add: node_Suc Let_def is_item_def)

lemma isAtEmptyListItem_loop_Suc:
  "isAtEmptyListItem_loop pos (Suc d) =
     (if is_item (ancestors pos ! d) then childCount (ancestors pos ! d) = 1
      else isAtEmptyListItem_loop pos d)"
  by (simp add: node_Suc Let_def is_item_def)

declare listItemTypeName_loop.simps(2) [simp del] isAtEmptyListItem_loop.simps(2) [simp del]

lemma listItemTypeName_loop_skip:
  assumes "\<forall>k. lo \<le> k \<and> k < hi \<longrightarrow> \<not> is_item (ancestors pos ! k)" and "lo \<le> hi"
  shows "listItemTypeName_loop pos hi = listItemTypeName_loop pos lo"
  using assms
proof (induction hi)
  case 0
  then show ?case by simp
next
  case (Suc hi)
  show ?case
  proof (cases "lo = Suc hi")
    case True
    then show ?thesis by simp
  next
    case False
    with Suc.prems have le: "lo \<le> hi" by simp
    from Suc.prems(1) le have "\<not> is_item (ancestors pos ! hi)" by simp
    moreover have "listItemTypeName_loop pos hi = listItemTypeName_loop pos lo"
      using Suc.IH Suc.prems(1) le by simp
    ultimately show ?thesis by (simp only: listItemTypeName_loop_Suc if_False)
  qed
qed

lemma isAtEmptyListItem_loop_skip:
  assumes "\<forall>k. lo \<le> k \<and> k < hi \<longrightarrow> \<not> is_item (ancestors pos ! k)" and "lo \<le> hi"
  shows "isAtEmptyListItem_loop pos hi = isAtEmptyListItem_loop pos lo"
  using assms
proof (induction hi)
  case 0
  then show ?case by simp
next
  case (Suc hi)
  show ?case
  proof (cases "lo = Suc hi")
    case True
    then show ?thesis by simp
  next
    case False
    with Suc.prems have le: "lo \<le> hi" by simp
    from Suc.prems(1) le have "\<not> is_item (ancestors pos ! hi)" by simp
    moreover have "isAtEmptyListItem_loop pos hi = isAtEmptyListItem_loop pos lo"
      using Suc.IH Suc.prems(1) le by simp
    ultimately show ?thesis by (simp only: isAtEmptyListItem_loop_Suc if_False)
  qed
qed

lemma enclosing_item_found:
  assumes path: "ancestors pos = outer @ item # inner @ [para]"
    and item: "is_item item"
    and inner: "\<forall>n\<in>set inner. \<not> is_item n"
    and para: "\<not> is_item para"
  shows "listItemTypeName pos = Some (type_name item)"
    and "parent pos = para"
    and "isAtEmptyListItem pos = (isTextblock para \<and> textContent para = [] \<and> childCount item = 1)"
proof -
  let ?lo = "Suc (length outer)"
  have d: "depth pos = Suc (?lo + length inner)" using path by (simp add: depth_def)
  have at_item: "ancestors pos ! length outer = item" using path by simp
  have at_inner: "\<not> is_item (ancestors pos ! k)"
    if "?lo \<le> k \<and> k < Suc (?lo + length inner)" for k
  proof -
    define m where "m = k - ?lo"
    from that have k: "k = ?lo + m" and m: "m \<le> length inner"
      unfolding m_def by linarith+
    have "ancestors pos ! k = (inner @ [para]) ! m"
      unfolding path k by (simp add: nth_append)
    moreover have "(inner @ [para]) ! m \<in> set inner \<union> {para}"
      using m by (cases "m < length inner") (simp_all add: nth_append)
    ultimately show ?thesis using inner para by auto
  qed
  have "listItemTypeName_loop pos (Suc (?lo + length inner)) = listItemTypeName_loop pos ?lo"
    by (rule listItemTypeName_loop_skip) (use at_inner in simp_all)
  then show "listItemTypeName pos = Some (type_name item)"
    using item at_item by (simp add: listItemTypeName_def d listItemTypeName_loop_Suc)
  show p: "parent pos = para"
    using path by (simp add: parent_def node_def depth_def nth_append)
  have "isAtEmptyListItem_loop pos (?lo + length inner) = isAtEmptyListItem_loop pos ?lo"
    by (rule isAtEmptyListItem_loop_skip) (use at_inner in simp_all)
  then have "isAtEmptyListItem_loop pos (depth pos - 1) = (childCount item = 1)"
    using item at_item by (simp add: d isAtEmptyListItem_loop_Suc)
  then show "isAtEmptyListItem pos = (isTextblock para \<and> textContent para = [] \<and> childCount item = 1)"
    by (auto simp: isAtEmptyListItem_def p)
qed

lemma listItem_neq_taskItem: "''listItem'' \<noteq> ''taskItem''"
  by simp

text \<open>
  C3. The cursor is in a text block \<open>para\<close> with empty text content, and \<open>item\<close> is
  the nearest list item or task item above it (no node between them, and not the
  text block itself, is one). If the item has exactly one child, the Enter handler of
  the item's kind runs \<open>liftListItem\<close>; if the item has more than one child (the empty
  paragraph and a nested list), it runs \<open>splitListItem\<close>. The handler of the other kind
  returns false in both cases.
\<close>

theorem enter_in_empty_item:
  assumes path: "ancestors pos = outer @ item # inner @ [para]"
    and item: "is_item item"
    and inner: "\<forall>n\<in>set inner. \<not> is_item n"
    and para: "\<not> is_item para"
    and empty: "isTextblock para" "length (textContent para) = 0"
  shows "(childCount item = 1 \<longrightarrow>
            (type_name item = ''listItem'' \<longrightarrow>
               CustomListItem_Enter pos = Some (liftListItem ''listItem'')
               \<and> CustomTaskItem_Enter pos = None)
          \<and> (type_name item = ''taskItem'' \<longrightarrow>
               CustomTaskItem_Enter pos = Some (liftListItem ''taskItem'')
               \<and> CustomListItem_Enter pos = None))
       \<and> (1 < childCount item \<longrightarrow>
            (type_name item = ''listItem'' \<longrightarrow>
               CustomListItem_Enter pos = Some (splitListItem ''listItem'')
               \<and> CustomTaskItem_Enter pos = None)
          \<and> (type_name item = ''taskItem'' \<longrightarrow>
               CustomTaskItem_Enter pos = Some (splitListItem ''taskItem'')
               \<and> CustomListItem_Enter pos = None))"
proof -
  note found = enclosing_item_found[OF path item inner para]
  have e: "isAtEmptyListItem pos = (childCount item = 1)"
    using found(3) empty by simp
  show ?thesis
    unfolding CustomListItem_Enter_def CustomTaskItem_Enter_def found(1) e
    using listItem_neq_taskItem by auto
qed

theorem enter_in_empty_item_witness:
  "CustomListItem_Enter pos_leaf = Some (liftListItem ''listItem'')
   \<and> CustomTaskItem_Enter pos_leaf = None
   \<and> CustomListItem_Enter pos_sublist = Some (splitListItem ''listItem'')
   \<and> CustomTaskItem_Enter pos_sublist = None"
  using enter_in_empty_item[of pos_leaf "[bulletList_node]" leaf_item "[]" empty_paragraph]
    enter_in_empty_item[of pos_sublist "[bulletList_node]" item_with_sublist "[]" empty_paragraph]
  by (simp add: pos_defs is_item_def)

section \<open>Reads of the environment\<close>

lemma world_le_touch: "world_le w (snd (touch n w))"
  by (simp add: touch_fields world_le_def)

lemma world_le_generateId: "world_le w (snd (generateId w))"
  by (simp add: generateId_def now_def unlet world_le_def)

lemma world_le_createParagraphBlock: "world_le w (snd (createParagraphBlock c w))"
  by (simp add: createParagraphBlock_def unlet world_le_generateId)

lemma world_le_createChecklistItem: "world_le w (snd (createChecklistItem w))"
  by (simp add: createChecklistItem_def unlet world_le_generateId)

lemma world_le_pure: "world_le w (snd (pure g b w))"
  by (simp add: pure_def world_le_refl)

lemma world_le_addChecklistItem: "world_le w (snd (addChecklistItem i b w))"
  by (cases b) (simp_all add: unlet world_le_refl world_le_createChecklistItem)

lemma world_le_removeChecklistItem: "world_le w (snd (removeChecklistItem i b w))"
  by (cases b) (simp_all add: unlet world_le_refl world_le_createChecklistItem)

lemma world_le_mapBlock:
  assumes "\<And>b w. world_le w (snd (fn b w))"
  shows "world_le w (snd (mapBlock bs bid fn w))"
  unfolding mapBlock_def by (rule mapEff_world_le) (simp add: assms world_le_refl)

lemma world_le_touchBlocks:
  assumes "\<And>b w. world_le w (snd (fn b w))"
  shows "world_le w (snd (touchBlocks bid fn n w))"
  using world_le_trans[OF world_le_mapBlock[of fn w "blocks n" bid, OF assms] world_le_touch]
  by (simp add: touchBlocks_def unlet)

lemma world_le_addBlock: "world_le w (snd (addBlock a b n w))"
  by (simp add: addBlock_def Let_def world_le_touch)

lemma world_le_removeBlock: "world_le w (snd (removeBlock bid n w))"
  using world_le_trans[OF world_le_createParagraphBlock world_le_touch]
  by (simp add: removeBlock_def unlet world_le_touch)

lemma world_le_moveBlock: "world_le w (snd (moveBlock bid dir n w))"
  by (simp add: moveBlock_def Let_def world_le_touch world_le_refl)

lemma world_le_noteCallback:
  "noteCallback a = Some (nid, fn) \<Longrightarrow> world_le w (snd (fn n w))"
  by (cases a)
     (auto simp: world_le_touch world_le_addBlock world_le_removeBlock world_le_moveBlock
        world_le_pure world_le_addChecklistItem world_le_removeChecklistItem
        intro!: world_le_touchBlocks)

lemma mapNote_nth_between:
  assumes cb: "noteCallback a = Some (nid, fn)"
    and i: "i < length ns" and nid: "note_id (ns ! i) = nid"
  shows "\<exists>w1. world_le w w1 \<and> world_le (snd (fn (ns ! i) w1)) (snd (mapNote ns nid fn w))
           \<and> fst (mapNote ns nid fn w) ! i = fst (fn (ns ! i) w1)"
proof -
  let ?f = "\<lambda>n. if note_id n = nid then fn n else Pair n"
  have mono: "world_le w (snd (?f x w))" for x w
    by (simp add: world_le_noteCallback[OF cb] world_le_refl)
  from mapEff_nth_between[of ?f i ns w, OF mono i] nid
  show ?thesis by (simp add: mapNote_def)
qed

section \<open>Timestamps\<close>

lemma touch_after:
  "world_le w1 w2 \<Longrightarrow>
   \<exists>k. clock_reads w1 \<le> k \<and> k < clock_reads (snd (touch n w2))
       \<and> updatedAt (fst (touch n w2)) = clock w1 k"
  by (intro exI[of _ "clock_reads w2"]) (simp add: touch_fields world_le_def)

lemma touchBlocks_stamp:
  assumes "\<And>b w. world_le w (snd (fn b w))"
  shows "\<exists>k. clock_reads w1 \<le> k \<and> k < clock_reads (snd (touchBlocks bid fn n w1))
             \<and> updatedAt (fst (touchBlocks bid fn n w1)) = clock w1 k"
  using touch_after[OF world_le_mapBlock[of fn w1 "blocks n" bid, OF assms]]
  by (simp add: touchBlocks_def unlet)

lemma removeBlock_stamp:
  "\<exists>k. clock_reads w1 \<le> k \<and> k < clock_reads (snd (removeBlock bid n w1))
       \<and> updatedAt (fst (removeBlock bid n w1)) = clock w1 k"
  using touch_after[OF world_le_createParagraphBlock[of w1 None]] touch_after[OF world_le_refl[of w1]]
  by (simp add: removeBlock_def unlet)

lemma moveBlock_stamp:
  assumes "restamps (MOVE_BLOCK nid bid dir) n"
  shows "\<exists>k. clock_reads w1 \<le> k \<and> k < clock_reads (snd (moveBlock bid dir n w1))
             \<and> updatedAt (fst (moveBlock bid dir n w1)) = clock w1 k"
  using assms touch_after[OF world_le_refl[of w1]]
  by (auto simp: moveBlock_def Let_def)

lemma restamps_noteCallback:
  "restamps a n \<Longrightarrow> \<exists>fn. noteCallback a = Some (note_id n, fn)"
  by (cases a) auto

lemma noteCallback_stamp:
  assumes "noteCallback a = Some (nid, fn)" "restamps a n"
  shows "\<exists>k. clock_reads w1 \<le> k \<and> k < clock_reads (snd (fn n w1))
             \<and> updatedAt (fst (fn n w1)) = clock w1 k"
proof (cases a)
  case (MOVE_BLOCK x1 x2 x3)
  then show ?thesis using assms moveBlock_stamp[of x1 x2 x3 n w1] by auto
next
  case (REMOVE_BLOCK x1 x2)
  then show ?thesis using assms removeBlock_stamp by auto
next
  case (ADD_BLOCK x1 x2 x3)
  then show ?thesis using assms touch_after[OF world_le_refl[of w1]]
    by (auto simp: addBlock_def Let_def)
next
  case (UPDATE_TITLE x1 x2)
  then show ?thesis using assms touch_after[OF world_le_refl[of w1]] by auto
next
  case (UPDATE_BODY x1 x2)
  then show ?thesis using assms touch_after[OF world_le_refl[of w1]] by auto
next
  case (ADD_CHECKLIST_ITEM x1 x2 x3)
  then show ?thesis using assms touchBlocks_stamp[OF world_le_addChecklistItem] by auto
next
  case (REMOVE_CHECKLIST_ITEM x1 x2 x3)
  then show ?thesis using assms touchBlocks_stamp[OF world_le_removeChecklistItem] by auto
qed (use assms touchBlocks_stamp[OF world_le_pure] in auto)

text \<open>
  C9. An action that re-stamps a note sets its \<open>updatedAt\<close> to a value of the clock
  read during that dispatch. The new \<open>updatedAt\<close> is strictly greater than the old
  one exactly when that reading is; nothing in the reducer compares the two.
\<close>

theorem updatedAt_is_clock_reading:
  assumes i: "i < length (st_notes s)" and a: "restamps a (st_notes s ! i)"
  shows "\<exists>k. clock_reads w \<le> k \<and> k < clock_reads (snd (editorReducer s a w))
           \<and> updatedAt (st_notes (fst (editorReducer s a w)) ! i) = clock w k
           \<and> (updatedAt (st_notes s ! i) < updatedAt (st_notes (fst (editorReducer s a w)) ! i)
                \<longleftrightarrow> updatedAt (st_notes s ! i) < clock w k)"
proof -
  let ?n = "st_notes s ! i"
  from restamps_noteCallback[OF a] obtain fn where cb: "noteCallback a = Some (note_id ?n, fn)"
    by blast
  from mapNote_nth_between[OF cb i refl, of w] obtain w1 where
    w1: "world_le w w1"
    and w2: "world_le (snd (fn ?n w1)) (snd (mapNote (st_notes s) (note_id ?n) fn w))"
    and at: "fst (mapNote (st_notes s) (note_id ?n) fn w) ! i = fst (fn ?n w1)"
    by blast
  from noteCallback_stamp[OF cb a, of w1] obtain k where
    k: "clock_reads w1 \<le> k" "k < clock_reads (snd (fn ?n w1))"
       "updatedAt (fst (fn ?n w1)) = clock w1 k"
    by blast
  have "clock_reads w \<le> k" using w1 k(1) by (simp add: world_le_def)
  moreover have "k < clock_reads (snd (editorReducer s a w))"
    using w2 k(2) by (simp add: editorReducer_noteCallback[OF cb] world_le_def)
  moreover have "updatedAt (st_notes (fst (editorReducer s a w)) ! i) = clock w k"
    using at k(3) w1 by (simp add: editorReducer_noteCallback[OF cb] world_le_def)
  ultimately show ?thesis by (intro exI[of _ k]) simp
qed

theorem updatedAt_is_clock_reading_witness:
  "0 < length (st_notes example_state)
   \<and> restamps (UPDATE_TITLE ''n1'' ''new'') (st_notes example_state ! 0)
   \<and> updatedAt (st_notes example_state ! 0) = 1000
   \<and> updatedAt (st_notes (fst (editorReducer example_state (UPDATE_TITLE ''n1'' ''new'')
        example_world)) ! 0) = 2000"
  using updatedAt_is_clock_reading[of 0 example_state "UPDATE_TITLE ''n1'' ''new''" example_world]
  by (simp add: example_defs mapNote_def mapEff_Cons touch_def now_def)

text \<open>
  A second action in the millisecond of the last stamp: the clock reads the value the
  note already carries, and \<open>updatedAt\<close> does not increase.
\<close>

theorem updatedAt_not_increased:
  "restamps (UPDATE_TITLE ''n1'' ''new'') (st_notes example_state ! 0)
   \<and> \<not> updatedAt (st_notes example_state ! 0)
        < updatedAt (st_notes (fst (editorReducer example_state (UPDATE_TITLE ''n1'' ''new'')
            stalled_world)) ! 0)"
  by (simp add: example_defs stalled_world_def mapNote_def mapEff_Cons touch_def now_def)

section \<open>Removing the only block\<close>

text \<open>
  The only block of the note has the id that the generator hands out next (a note
  that was loaded, say). \<open>REMOVE_BLOCK\<close> substitutes a paragraph with the id just
  generated: it is the id of the removed block.
\<close>

theorem remove_only_block_same_id:
  "blocks (st_notes reloaded_state ! 0) = [Heading ''id-'' L1 [plainSpan ''h'']]
   \<and> blocks (st_notes (fst (editorReducer reloaded_state (REMOVE_BLOCK ''n1'' ''id-'')
        example_world)) ! 0)
     = [Paragraph ''id-'' [\<lparr>span_text = [], bold = None, italic = None, underline = None\<rparr>]]"
  by (simp add: example_defs reloaded_state_def mapNote_def mapEff_Cons removeBlock_def
      createParagraphBlock_def generateId_def touch_def now_def unlet)

text \<open>
  C5. If a note has exactly one block and \<open>REMOVE_BLOCK\<close> names that block, the
  note then has exactly one block, a paragraph whose content is one empty span, and
  the id of that paragraph is the id that \<open>generateId\<close> returns when it is called
  during the dispatch. Where ids come from \<open>crypto.randomUUID\<close>, it never returns
  the same id twice, and the removed block's id is one it has returned before, the
  new id differs from the removed one.
\<close>

theorem remove_only_block:
  assumes i: "i < length (st_notes s)" and nid: "note_id (st_notes s ! i) = noteId"
    and only: "blocks (st_notes s ! i) = [b]" and bid: "block_id b = blockId"
  shows "\<exists>w1. world_le w w1
            \<and> world_le (snd (generateId w1))
                 (snd (editorReducer s (REMOVE_BLOCK noteId blockId) w))
            \<and> blocks (st_notes (fst (editorReducer s (REMOVE_BLOCK noteId blockId) w)) ! i)
               = [Paragraph (fst (generateId w1))
                    [\<lparr>span_text = [], bold = None, italic = None, underline = None\<rparr>]]
            \<and> (has_randomUUID w \<and> inj (idgen w)
                 \<and> (\<exists>k. k < ids_made w \<and> blockId = idgen w k)
               \<longrightarrow> fst (generateId w1) \<noteq> blockId)"
proof -
  let ?n = "st_notes s ! i"
  have cb: "noteCallback (REMOVE_BLOCK noteId blockId) = Some (noteId, removeBlock blockId)"
    by simp
  from mapNote_nth_between[OF cb i nid, of w] obtain w1 where
    w1: "world_le w w1"
    and w2: "world_le (snd (removeBlock blockId ?n w1))
               (snd (mapNote (st_notes s) noteId (removeBlock blockId) w))"
    and at: "fst (mapNote (st_notes s) noteId (removeBlock blockId) w) ! i
             = fst (removeBlock blockId ?n w1)"
    by blast
  have "world_le (snd (generateId w1)) (snd (removeBlock blockId ?n w1))"
    using only bid
    by (simp add: removeBlock_def createParagraphBlock_def unlet world_le_touch)
  from world_le_trans[OF this w2]
  have during: "world_le (snd (generateId w1))
                  (snd (editorReducer s (REMOVE_BLOCK noteId blockId) w))"
    by (simp add: unlet)
  have "blocks (fst (removeBlock blockId ?n w1))
        = [Paragraph (fst (generateId w1))
             [\<lparr>span_text = [], bold = None, italic = None, underline = None\<rparr>]]"
    using only bid
    by (simp add: removeBlock_def createParagraphBlock_def unlet touch_fields
        emptyContent_def plainSpan_def)
  then have "blocks (st_notes (fst (editorReducer s (REMOVE_BLOCK noteId blockId) w)) ! i)
        = [Paragraph (fst (generateId w1))
             [\<lparr>span_text = [], bold = None, italic = None, underline = None\<rparr>]]"
    using at by (simp add: unlet)
  moreover have "fst (generateId w1) \<noteq> blockId"
    if u: "has_randomUUID w" and inj: "inj (idgen w)"
      and k: "k < ids_made w" "blockId = idgen w k" for k
  proof -
    have "fst (generateId w1) = idgen w (ids_made w1)"
      using w1 u by (simp add: generateId_def world_le_def)
    moreover have "k \<noteq> ids_made w1" using w1 k(1) by (simp add: world_le_def)
    ultimately show ?thesis using inj k(2) by (auto dest: injD)
  qed
  ultimately show ?thesis using w1 during by blast
qed

theorem remove_only_block_witness:
  "blocks (st_notes reloaded_state ! 0) = [Heading ''id-'' L1 [plainSpan ''h'']]
   \<and> has_randomUUID drawn_world \<and> inj (idgen drawn_world)
   \<and> 0 < ids_made drawn_world \<and> ''id-'' = idgen drawn_world 0
   \<and> blocks (st_notes (fst (editorReducer reloaded_state (REMOVE_BLOCK ''n1'' ''id-'')
        drawn_world)) ! 0)
     = [Paragraph ''id-x'' [\<lparr>span_text = [], bold = None, italic = None, underline = None\<rparr>]]
   \<and> ''id-x'' \<noteq> ''id-''
   \<and> blocks (st_notes (fst (editorReducer example_state (REMOVE_BLOCK ''n1'' ''b1'')
        fallback_world)) ! 0)
     = [Paragraph ''1jk-r'' [\<lparr>span_text = [], bold = None, italic = None, underline = None\<rparr>]]"
  using remove_only_block[of 0 reloaded_state "''n1''" "Heading ''id-'' L1 [plainSpan ''h'']"
      "''id-''" drawn_world]
    remove_only_block[of 0 example_state "''n1''" "Paragraph ''b1'' emptyContent" "''b1''"
      fallback_world]
  by (simp add: example_defs reloaded_state_def drawn_world_def fallback_world_def mapNote_def
      mapEff_Cons removeBlock_def createParagraphBlock_def generateId_def touch_def now_def unlet
      inj_def toString36_def digit36_def)

section \<open>Actions addressed to an id that does not exist\<close>

lemma restamped_refl: "restamped n n"
  by (simp add: restamped_def)

lemma restamped_touch: "restamped n (fst (touch n w))"
  by (simp add: restamped_def touch_def now_def)

lemma touchBlocks_same:
  assumes "\<And>b w. b \<in> set (blocks n) \<Longrightarrow> block_id b = blockId \<Longrightarrow> fn b w = (b, w)"
  shows "touchBlocks blockId fn n w = touch n w"
proof -
  have "mapBlock (blocks n) blockId fn w = (blocks n, w)"
    unfolding mapBlock_def using assms by (intro mapEff_unchanged) auto
  then show ?thesis by (simp add: touchBlocks_def)
qed

lemma touchBlocks_missing:
  assumes "blockId \<notin> set (map block_id (blocks n))"
  shows "touchBlocks blockId fn n w = touch n w"
  using assms by (intro touchBlocks_same) auto

lemma removeBlock_missing:
  assumes "blockId \<notin> set (map block_id (blocks n))" "blocks n \<noteq> []"
  shows "removeBlock blockId n w = touch n w"
proof -
  have "filter (\<lambda>b. block_id b \<noteq> blockId) (blocks n) = blocks n"
    using assms(1) by (auto simp: filter_id_conv)
  then show ?thesis using assms(2) by (simp add: removeBlock_def)
qed

lemma moveBlock_missing:
  assumes "blockId \<notin> set (map block_id (blocks n))"
  shows "moveBlock blockId dir n w = (n, w)"
proof -
  have "findIndex (\<lambda>b. block_id b = blockId) (blocks n) = - 1"
    using assms by (intro findIndex_none) auto
  then show ?thesis by (simp add: moveBlock_def)
qed

lemma block_missing_callback:
  assumes "noteCallback a = Some (nid, fn)" "addressed_block a = Some (nid', blockId)"
    and "blockId \<notin> set (map block_id (blocks n))"
    and "\<And>x y. a = REMOVE_BLOCK x y \<Longrightarrow> blocks n \<noteq> []"
  shows "restamped n (fst (fn n w))"
  using assms
  by (cases a)
     (auto simp: touchBlocks_missing removeBlock_missing moveBlock_missing restamped_touch
        restamped_refl)

lemma item_ids_absent:
  "itemId \<notin> set (List.map_filter citem_id its) \<longleftrightarrow> (\<forall>x\<in>set its. citem_id x \<noteq> Some itemId)"
  by (induction its) (auto simp: map_filter_simps split: option.splits)

lemma toggleItem_other: "citem_id x \<noteq> Some itemId \<Longrightarrow> toggleItem itemId x = x"
  by (cases x) auto

lemma updateItem_other: "citem_id x \<noteq> Some itemId \<Longrightarrow> updateItem itemId c x = x"
  by (cases x) auto

lemma toggleChecklistItem_missing:
  "itemId \<notin> set (item_ids b) \<Longrightarrow> toggleChecklistItem itemId b = b"
  by (cases b) (simp_all add: item_ids_absent toggleItem_other map_idI)

lemma updateChecklistItem_missing:
  "itemId \<notin> set (item_ids b) \<Longrightarrow> updateChecklistItem itemId c b = b"
  by (cases b) (simp_all add: item_ids_absent updateItem_other map_idI)

lemma removeChecklistItem_missing:
  "itemId \<notin> set (item_ids b) \<Longrightarrow> has_items b \<Longrightarrow> removeChecklistItem itemId b w = (b, w)"
proof (cases b)
  case (ChecklistBlock bid its)
  assume "itemId \<notin> set (item_ids b)" and ne: "has_items b"
  then have "filter (\<lambda>x. citem_id x \<noteq> Some itemId) its = its"
    using ChecklistBlock by (simp add: item_ids_absent filter_id_conv)
  moreover have "its \<noteq> []" using ne ChecklistBlock by simp
  ultimately show ?thesis using ChecklistBlock by simp
qed simp_all

lemma item_missing_callback:
  assumes "noteCallback a = Some (nid, fn)" "addressed_item a = Some (nid', blockId, itemId)"
    and miss: "list_all (\<lambda>b. block_id b = blockId \<longrightarrow> itemId \<notin> set (item_ids b)) (blocks n)"
    and ne: "\<And>x y z. a = REMOVE_CHECKLIST_ITEM x y z \<Longrightarrow>
               list_all (\<lambda>b. block_id b = y \<longrightarrow> has_items b) (blocks n)"
  shows "restamped n (fst (fn n w))"
proof -
  have m: "itemId \<notin> set (item_ids b)"
    if "b \<in> set (blocks n)" "block_id b = blockId" for b
    using that miss by (auto simp: list_all_iff)
  have h: "has_items b"
    if "a = REMOVE_CHECKLIST_ITEM x blockId z" "b \<in> set (blocks n)" "block_id b = blockId"
    for b x z
    using ne[OF that(1)] that(2,3) by (auto simp: list_all_iff)
  have "fn n w = touch n w"
    using assms(1,2)
    by (cases a)
       (auto simp: pure_def m h toggleChecklistItem_missing updateChecklistItem_missing
          removeChecklistItem_missing intro!: touchBlocks_same)
  then show ?thesis by (simp add: restamped_touch)
qed

lemma note_missing_unchanged:
  assumes "note_missing s a"
  shows "editorReducer s a w = (s, w)"
proof (cases "noteCallback a")
  case None
  with assms obtain noteId where a: "a = DELETE_NOTE noteId"
    by (cases a) auto
  with assms have "filter (\<lambda>n. note_id n \<noteq> noteId) (st_notes s) = st_notes s"
    by (auto simp: filter_id_conv)
  then show ?thesis using a assms by simp
next
  case (Some p)
  obtain nid fn where p: "p = (nid, fn)" by (cases p)
  with Some assms have absent: "nid \<notin> set (map note_id (st_notes s))"
    by (cases a) auto
  have "mapNote (st_notes s) nid fn w = (st_notes s, w)"
    unfolding mapNote_def using absent by (intro mapEff_unchanged) auto
  then show ?thesis using Some p by (simp add: editorReducer_noteCallback)
qed

lemma move_missing_unchanged:
  assumes "block_missing s (MOVE_BLOCK noteId blockId dir)"
  shows "editorReducer s (MOVE_BLOCK noteId blockId dir) w = (s, w)"
proof -
  have "(if note_id n = noteId then moveBlock blockId dir n else Pair n) w1 = (n, w1)"
    if "n \<in> set (st_notes s)" for n w1
    using that assms by (auto simp: block_missing_def list_all_iff moveBlock_missing)
  then have "mapNote (st_notes s) noteId (moveBlock blockId dir) w = (st_notes s, w)"
    unfolding mapNote_def by (intro mapEff_unchanged)
  then show ?thesis by simp
qed

lemma addressed_block_noteCallback:
  "addressed_block a = Some (nid, bid) \<Longrightarrow> \<exists>fn. noteCallback a = Some (nid, fn)"
  by (cases a) auto

lemma addressed_item_block:
  "addressed_item a = Some (nid, bid, iid) \<Longrightarrow> addressed_block a = Some (nid, bid)"
  by (cases a) auto

lemma only_stamps_mapNote:
  assumes cb: "noteCallback a = Some (nid, fn)"
    and r: "\<And>n w1. n \<in> set (st_notes s) \<Longrightarrow> note_id n = nid \<Longrightarrow> restamped n (fst (fn n w1))"
  shows "only_stamps nid s (fst (editorReducer s a w))"
proof -
  have "(if note_id n = nid then restamped n (fst ((if note_id n = nid then fn n else Pair n) w1))
         else fst ((if note_id n = nid then fn n else Pair n) w1) = n)"
    if "n \<in> set (st_notes s)" for n w1
    using that r by simp
  then have "list_all2 (\<lambda>n n'. if note_id n = nid then restamped n n' else n' = n)
               (st_notes s) (fst (mapNote (st_notes s) nid fn w))"
    unfolding mapNote_def by (intro mapEff_list_all2)
  then show ?thesis by (simp add: only_stamps_def editorReducer_noteCallback[OF cb])
qed

lemma block_missing_stamps:
  assumes ab: "addressed_block a = Some (nid, bid)"
    and miss: "block_missing s a" and ne: "nonempty_target s a"
  shows "only_stamps nid s (fst (editorReducer s a w))"
proof -
  from addressed_block_noteCallback[OF ab] obtain fn where cb: "noteCallback a = Some (nid, fn)"
    by blast
  have "restamped n (fst (fn n w1))" if n: "n \<in> set (st_notes s)" "note_id n = nid" for n w1
  proof -
    from n miss ab have "bid \<notin> set (map block_id (blocks n))"
      by (auto simp: block_missing_def list_all_iff)
    moreover have "blocks n \<noteq> []" if "a = REMOVE_BLOCK x y" for x y
      using that ne n ab by (auto simp: list_all_iff)
    ultimately show ?thesis using block_missing_callback[OF cb ab] by blast
  qed
  with cb show ?thesis by (rule only_stamps_mapNote)
qed

lemma item_missing_stamps:
  assumes ab: "addressed_block a = Some (nid, bid)"
    and miss: "item_missing s a" and ne: "nonempty_target s a"
  shows "only_stamps nid s (fst (editorReducer s a w))"
proof -
  from miss obtain nid' bid' iid where ai: "addressed_item a = Some (nid', bid', iid)"
    by (auto simp: item_missing_def split: option.splits)
  from addressed_item_block[OF ai] ab have eq: "nid' = nid" "bid' = bid" by simp_all
  from addressed_block_noteCallback[OF ab] obtain fn where cb: "noteCallback a = Some (nid, fn)"
    by blast
  have "restamped n (fst (fn n w1))" if n: "n \<in> set (st_notes s)" "note_id n = nid" for n w1
  proof -
    from n miss ai eq
    have "list_all (\<lambda>b. block_id b = bid \<longrightarrow> iid \<notin> set (item_ids b)) (blocks n)"
      by (auto simp: item_missing_def list_all_iff)
    moreover have "list_all (\<lambda>b. block_id b = y \<longrightarrow> has_items b) (blocks n)"
      if "a = REMOVE_CHECKLIST_ITEM x y z" for x y z
      using that ne n ab by (auto simp: list_all_iff)
    ultimately show ?thesis using item_missing_callback[OF cb] ai eq by blast
  qed
  with cb show ?thesis by (rule only_stamps_mapNote)
qed

text \<open>
  The block id \<open>b9\<close> does not exist in note \<open>n1\<close>, yet \<open>REMOVE_BLOCK\<close> returns a state
  that is not the input state: \<open>updatedAt\<close> went from 1000 to the clock's 2000; so
  does \<open>TOGGLE_CHECKLIST_ITEM\<close> with the item id \<open>i9\<close> that the checklist \<open>b3\<close> does
  not have. \<open>SET_ACTIVE_NOTE\<close> with an id no note has moves the active pointer to
  it, and \<open>DELETE_NOTE\<close> with such an id moves the active pointer away from it, to
  the first note. In a note without blocks, \<open>REMOVE_BLOCK\<close> with an absent block id
  puts a paragraph; in a checklist without items, \<open>REMOVE_CHECKLIST_ITEM\<close> with an
  absent item id puts an item.
\<close>

theorem missing_block_changes_state:
  "block_missing example_state (REMOVE_BLOCK ''n1'' ''b9'')
   \<and> fst (editorReducer example_state (REMOVE_BLOCK ''n1'' ''b9'') example_world) \<noteq> example_state
   \<and> updatedAt (st_notes (fst (editorReducer example_state (REMOVE_BLOCK ''n1'' ''b9'')
        example_world)) ! 0) = 2000
   \<and> item_missing list_state (TOGGLE_CHECKLIST_ITEM ''n2'' ''b3'' ''i9'')
   \<and> updatedAt (st_notes list_state ! 1) = 1000
   \<and> updatedAt (st_notes (fst (editorReducer list_state
        (TOGGLE_CHECKLIST_ITEM ''n2'' ''b3'' ''i9'') example_world)) ! 1) = 2000
   \<and> ''n9'' \<notin> set (map note_id (st_notes example_state))
   \<and> fst (editorReducer example_state (SET_ACTIVE_NOTE (Some ''n9'')) example_world)
       \<noteq> example_state
   \<and> ''n9'' \<notin> set (map note_id (st_notes dangling_state))
   \<and> activeNoteId dangling_state = Some ''n9''
   \<and> activeNoteId (fst (editorReducer dangling_state (DELETE_NOTE ''n9'') example_world))
       = Some ''n1''
   \<and> block_missing blockless_state (REMOVE_BLOCK ''n1'' ''b9'')
   \<and> blocks (st_notes (fst (editorReducer blockless_state (REMOVE_BLOCK ''n1'' ''b9'')
        example_world)) ! 0) = [Paragraph ''id-'' emptyContent]
   \<and> item_missing itemless_state (REMOVE_CHECKLIST_ITEM ''n1'' ''c1'' ''i9'')
   \<and> blocks (st_notes itemless_state ! 0) = [ChecklistBlock ''c1'' []]
   \<and> blocks (st_notes (fst (editorReducer itemless_state
        (REMOVE_CHECKLIST_ITEM ''n1'' ''c1'' ''i9'') example_world)) ! 0)
       = [ChecklistBlock ''c1''
            [CCheck \<lparr>item_id = ''id-'', checked = False, item_content = emptyContent\<rparr>]]"
  by (simp add: example_defs blockless_state_def dangling_state_def itemless_state_def
      block_missing_def item_missing_def map_filter_def mapNote_def mapBlock_def mapEff_Cons
      removeBlock_def touchBlocks_def pure_def createParagraphBlock_def createChecklistItem_def
      generateId_def touch_def now_def unlet)

text \<open>
  C2. An action other than \<open>SET_ACTIVE_NOTE\<close> that is addressed to a note id no
  note has returns the state as it is, timestamps included, and reads nothing from
  the environment (for \<open>DELETE_NOTE\<close>: as long as the active id is not that id).
  So does \<open>MOVE_BLOCK\<close> addressed to a block id that the addressed note does not
  have. After any other action addressed to a block id that the addressed note does
  not have, or to a checklist item id that the addressed block does not have, the
  active id is the same, every note with another id is the same, and a note with the
  addressed id has every field other than \<open>updatedAt\<close> the same; this for
  \<open>REMOVE_BLOCK\<close> if the addressed note has a block, and for
  \<open>REMOVE_CHECKLIST_ITEM\<close> if the addressed checklist has an item.
\<close>

theorem missing_target:
  "(note_missing s a \<longrightarrow> editorReducer s a w = (s, w))
   \<and> (block_missing s (MOVE_BLOCK noteId blockId dir) \<longrightarrow>
        editorReducer s (MOVE_BLOCK noteId blockId dir) w = (s, w))
   \<and> (addressed_block a = Some (nid, bid) \<and> (block_missing s a \<or> item_missing s a)
        \<and> nonempty_target s a \<longrightarrow>
        only_stamps nid s (fst (editorReducer s a w)))"
  using note_missing_unchanged move_missing_unchanged block_missing_stamps item_missing_stamps
  by blast

theorem missing_target_witness:
  "note_missing list_state (UPDATE_TITLE ''n9'' ''x'')
   \<and> editorReducer list_state (UPDATE_TITLE ''n9'' ''x'') example_world = (list_state, example_world)
   \<and> note_missing list_state (DELETE_NOTE ''n9'')
   \<and> editorReducer list_state (DELETE_NOTE ''n9'') example_world = (list_state, example_world)
   \<and> block_missing list_state (MOVE_BLOCK ''n2'' ''b9'' up)
   \<and> editorReducer list_state (MOVE_BLOCK ''n2'' ''b9'' up) example_world
       = (list_state, example_world)
   \<and> block_missing list_state (REMOVE_BLOCK ''n2'' ''b9'')
   \<and> nonempty_target list_state (REMOVE_BLOCK ''n2'' ''b9'')
   \<and> only_stamps ''n2'' list_state
        (fst (editorReducer list_state (REMOVE_BLOCK ''n2'' ''b9'') example_world))
   \<and> item_missing list_state (REMOVE_CHECKLIST_ITEM ''n2'' ''b3'' ''i9'')
   \<and> nonempty_target list_state (REMOVE_CHECKLIST_ITEM ''n2'' ''b3'' ''i9'')
   \<and> only_stamps ''n2'' list_state
        (fst (editorReducer list_state (REMOVE_CHECKLIST_ITEM ''n2'' ''b3'' ''i9'') example_world))
   \<and> item_missing list_state (TOGGLE_CHECKLIST_ITEM ''n2'' ''b3'' ''i9'')
   \<and> only_stamps ''n2'' list_state
        (fst (editorReducer list_state (TOGGLE_CHECKLIST_ITEM ''n2'' ''b3'' ''i9'') example_world))
   \<and> block_missing blockless_state (UPDATE_BLOCK_CONTENT ''n1'' ''b9'' emptyContent)
   \<and> only_stamps ''n1'' blockless_state
        (fst (editorReducer blockless_state (UPDATE_BLOCK_CONTENT ''n1'' ''b9'' emptyContent)
           example_world))"
  using missing_target[of list_state "UPDATE_TITLE ''n9'' ''x''" example_world]
    missing_target[of list_state "DELETE_NOTE ''n9''" example_world]
    missing_target[of list_state _ example_world "''n2''" "''b9''" up]
    missing_target[of list_state "REMOVE_BLOCK ''n2'' ''b9''" example_world _ _ _
      "''n2''" "''b9''"]
    missing_target[of list_state "REMOVE_CHECKLIST_ITEM ''n2'' ''b3'' ''i9''" example_world _ _ _
      "''n2''" "''b3''"]
    missing_target[of list_state "TOGGLE_CHECKLIST_ITEM ''n2'' ''b3'' ''i9''" example_world _ _ _
      "''n2''" "''b3''"]
    missing_target[of blockless_state "UPDATE_BLOCK_CONTENT ''n1'' ''b9'' emptyContent"
      example_world _ _ _ "''n1''" "''b9''"]
  by (simp add: example_defs blockless_state_def block_missing_def item_missing_def
      map_filter_def)

end
